theory Spec2Isabelle
  imports Main "HOL-Library.Sublist" "HOL-Library.Word"
begin

unbundle bit_operations_syntax

section \<open>Strings and the library functions the service calls\<close>

text \<open>
  A Go string is a sequence of bytes; it is modelled as \<^typ>\<open>string\<close> (a list of
  8-bit characters), so that \<open>length\<close> is Go's \<open>len\<close> and \<open>of_char (s ! i)\<close>
  is \<open>int(s[i])\<close>.
\<close>

type_synonym byte = "8 word"

subsection \<open>strings.TrimSpace\<close>

text \<open>
  \<open>strings.TrimSpace\<close> removes the leading and the trailing white-space runes of a
  string, as \<open>unicode.IsSpace\<close> defines them. \<open>spaceRunes\<close> lists their UTF-8
  encodings: the six ASCII ones (tab, line feed, vertical tab, form feed, carriage
  return, space), U+0085, U+00A0, U+1680, U+2000 to U+200A, U+2028, U+2029, U+202F,
  U+205F and U+3000. A byte that does not start one of these encodings (also a byte
  of an invalid encoding) stops the trimming.
\<close>

definition spaceRunes :: "string list" where
  "spaceRunes =
     [[CHR 0x09], [CHR 0x0A], [CHR 0x0B], [CHR 0x0C], [CHR 0x0D], [CHR 0x20],
      [CHR 0xC2, CHR 0x85], [CHR 0xC2, CHR 0xA0],
      [CHR 0xE1, CHR 0x9A, CHR 0x80],
      [CHR 0xE2, CHR 0x80, CHR 0x80], [CHR 0xE2, CHR 0x80, CHR 0x81],
      [CHR 0xE2, CHR 0x80, CHR 0x82], [CHR 0xE2, CHR 0x80, CHR 0x83],
      [CHR 0xE2, CHR 0x80, CHR 0x84], [CHR 0xE2, CHR 0x80, CHR 0x85],
      [CHR 0xE2, CHR 0x80, CHR 0x86], [CHR 0xE2, CHR 0x80, CHR 0x87],
      [CHR 0xE2, CHR 0x80, CHR 0x88], [CHR 0xE2, CHR 0x80, CHR 0x89],
      [CHR 0xE2, CHR 0x80, CHR 0x8A],
      [CHR 0xE2, CHR 0x80, CHR 0xA8], [CHR 0xE2, CHR 0x80, CHR 0xA9],
      [CHR 0xE2, CHR 0x80, CHR 0xAF], [CHR 0xE2, CHR 0x81, CHR 0x9F],
      [CHR 0xE3, CHR 0x80, CHR 0x80]]"

text \<open>The width in bytes of the white-space rune at the head of \<open>s\<close>; 0 when there is none.\<close>

definition leadingSpace :: "string \<Rightarrow> nat" where
  "leadingSpace s =
     (case List.find (\<lambda>r. prefix r s) spaceRunes of None \<Rightarrow> 0 | Some r \<Rightarrow> length r)"

text \<open>The width in bytes of the white-space rune at the end of \<open>s\<close>; 0 when there is none.\<close>

definition trailingSpace :: "string \<Rightarrow> nat" where
  "trailingSpace s =
     (case List.find (\<lambda>r. suffix r s) spaceRunes of None \<Rightarrow> 0 | Some r \<Rightarrow> length r)"

lemma leadingSpace_le: "leadingSpace s \<le> length s"
  by (auto simp: leadingSpace_def find_Some_iff prefix_length_le split: option.splits)

lemma trailingSpace_le: "trailingSpace s \<le> length s"
  by (auto simp: trailingSpace_def find_Some_iff suffix_length_le split: option.splits)

function trimLeft :: "string \<Rightarrow> string" where
  "trimLeft s = (if leadingSpace s = 0 then s else trimLeft (drop (leadingSpace s) s))"
  by pat_completeness auto
termination
proof (relation "measure length")
  show "wf (measure length)" by simp
next
  fix s :: string
  assume "leadingSpace s \<noteq> 0"
  moreover have "leadingSpace s \<le> length s" by (rule leadingSpace_le)
  ultimately show "(drop (leadingSpace s) s, s) \<in> measure length" by simp
qed

function trimRight :: "string \<Rightarrow> string" where
  "trimRight s =
     (if trailingSpace s = 0 then s else trimRight (take (length s - trailingSpace s) s))"
  by pat_completeness auto
termination
proof (relation "measure length")
  show "wf (measure length)" by simp
next
  fix s :: string
  assume "trailingSpace s \<noteq> 0"
  moreover have "trailingSpace s \<le> length s" by (rule trailingSpace_le)
  ultimately show "(take (length s - trailingSpace s) s, s) \<in> measure length" by simp
qed

declare trimLeft.simps [simp del] trimRight.simps [simp del]

definition TrimSpace :: "string \<Rightarrow> string" where
  "TrimSpace s = trimRight (trimLeft s)"

section \<open>The store (internal/shortener/store.go)\<close>

text \<open>
  \<open>Store\<close> holds the map from short code to long URL. Its \<open>sync.RWMutex\<close> guards the
  map against concurrent goroutines; in a sequential run every method takes the lock
  on entry and releases it on return, so the lock is free between calls and is not
  part of the state. Each method is a state transformer: it returns its result and
  the store it leaves behind.
\<close>

record Store =
  urls :: "string \<rightharpoonup> string"

definition NewStore :: Store where
  "NewStore = \<lparr>urls = Map.empty\<rparr>"

definition Save :: "string \<Rightarrow> string \<Rightarrow> Store \<Rightarrow> Store" where
  "Save shortCode longURL s = s\<lparr>urls := (urls s)(shortCode \<mapsto> longURL)\<rparr>"

text \<open>A Go map lookup \<open>v, ok := m[k]\<close> gives the zero value \<open>""\<close> and \<open>false\<close> for a missing key.\<close>

definition Get :: "string \<Rightarrow> Store \<Rightarrow> (string \<times> bool) \<times> Store" where
  "Get shortCode s =
     ((case urls s shortCode of None \<Rightarrow> ([], False) | Some longURL \<Rightarrow> (longURL, True)), s)"

definition Exists :: "string \<Rightarrow> Store \<Rightarrow> bool \<times> Store" where
  "Exists shortCode s =
     ((case urls s shortCode of None \<Rightarrow> False | Some _ \<Rightarrow> True), s)"

definition Count :: "Store \<Rightarrow> nat \<times> Store" where
  "Count s = (card (dom (urls s)), s)"

section \<open>The service (internal/shortener/service.go)\<close>

subsection \<open>Constants, errors and results\<close>

definition ShortCodeLength :: int where
  "ShortCodeLength = 6"

definition MaxRetries :: int where
  "MaxRetries = 10"

definition ValidChars :: string where
  "ValidChars = ''abcdefghijklmnopqrstuvwxyzABCDEFGHIJKLMNOPQRSTUVWXYZ0123456789''"

text \<open>
  The message of a \<open>ValidationError\<close>, one constructor for each text the validators
  use: "no puede estar vacia", "no puede contener solo espacios", "demasiado corta
  para ser una URL valida", "formato invalido" (with the parser's error, where the
  revision prints it), "debe usar esquema http o https", "debe tener un host valido",
  "dominio bloqueado por seguridad".
\<close>

datatype msg =
  MsgEmpty | MsgOnlySpaces | MsgTooShort | MsgFormat string | MsgScheme | MsgHost | MsgBlocked

text \<open>
  The error values of the package. \<open>ErrCritical\<close> is the error that the deferred
  \<open>recover\<close> of \<open>ShortenURL\<close> and \<open>GetLongURL\<close> builds from a panic.
\<close>

datatype error =
    ValidationError string string msg
  | ErrInvalidURL
  | ErrEmptyURL
  | ErrMaxRetries
  | ErrURLNotFound
  | ErrServiceUnavailable
  | ErrCritical

text \<open>A call either returns a value or panics.\<close>

datatype 'a exec = Return 'a | Panic

subsection \<open>The environment: clock, random source, MD5, URL parser\<close>

text \<open>
  The service reads the wall clock, draws from its \<open>rand.Rand\<close>, hashes with
  \<open>crypto/md5\<close> and parses with \<open>net/url\<close>. These belong to Go's library, so they are
  parameters of the model: \<open>UnixNano E k\<close> is the \<open>k\<close>-th reading of
  \<open>time.Now().UnixNano()\<close>, \<open>Int63 E k\<close> and \<open>Intn E k n\<close> are the value of the \<open>k\<close>-th
  call on the random source when that call is \<open>Int63()\<close> or \<open>Intn(n)\<close>, \<open>md5Sum E\<close> is
  the digest function and \<open>urlParse E\<close> is \<open>url.Parse\<close> (the error text, or the scheme
  and host of the parsed URL).
\<close>

record URL =
  Scheme :: string
  Host :: string

record env =
  UnixNano :: "nat \<Rightarrow> int"
  Int63 :: "nat \<Rightarrow> int"
  Intn :: "nat \<Rightarrow> int \<Rightarrow> int"
  md5Sum :: "string \<Rightarrow> byte list"
  urlParse :: "string \<Rightarrow> string + URL"

text \<open>
  The state a call can change: the store, the number of clock readings taken so far
  and the number of calls made on the random source so far.
\<close>

record world =
  store :: Store
  clock :: nat
  rng :: nat

definition now :: "env \<Rightarrow> world \<Rightarrow> int \<times> world" where
  "now E w = (UnixNano E (clock w), w\<lparr>clock := Suc (clock w)\<rparr>)"

definition randInt63 :: "env \<Rightarrow> world \<Rightarrow> int \<times> world" where
  "randInt63 E w = (Int63 E (rng w), w\<lparr>rng := Suc (rng w)\<rparr>)"

text \<open>\<open>Intn(n)\<close> panics when \<open>n \<le> 0\<close>.\<close>

definition randIntn :: "env \<Rightarrow> int \<Rightarrow> world \<Rightarrow> int exec \<times> world" where
  "randIntn E n w =
     (if n \<le> 0 then (Panic, w) else (Return (Intn E (rng w) n), w\<lparr>rng := Suc (rng w)\<rparr>))"

text \<open>MD5 digests have 16 bytes (\<open>md5.Size\<close>).\<close>

definition md5_sized :: "env \<Rightarrow> bool" where
  "md5_sized E = (\<forall>s. length (md5Sum E s) = 16)"

subsection \<open>fmt.Sprintf("%d") and hex.EncodeToString\<close>

fun digits :: "nat \<Rightarrow> string" where
  "digits n =
     (if n < 10 then [''0123456789'' ! n] else digits (n div 10) @ [''0123456789'' ! (n mod 10)])"

declare digits.simps [simp del]

definition itoa :: "int \<Rightarrow> string" where
  "itoa i = (if i < 0 then CHR ''-'' # digits (nat (- i)) else digits (nat i))"

definition hextable :: string where
  "hextable = ''0123456789abcdef''"

definition EncodeToString :: "byte list \<Rightarrow> string" where
  "EncodeToString src =
     concat (map (\<lambda>v. [hextable ! unat (drop_bit 4 v), hextable ! unat (v AND 0x0f)]) src)"

subsection \<open>Candidate codes, revision part_002 (extractValidChars)\<close>

text \<open>
  The first loop of \<open>extractValidChars\<close>:
  \<^verbatim>\<open>for i := 0; i < len(hash) && result.Len() < length; i++\<close>, appending
  \<open>ValidChars[int(hash[i]) % len(ValidChars)]\<close>.
\<close>

function extractLoop :: "string \<Rightarrow> int \<Rightarrow> nat \<Rightarrow> string \<Rightarrow> string" where
  "extractLoop hash len i result =
     (if i < length hash \<and> int (length result) < len
      then extractLoop hash len (Suc i)
             (result @ [ValidChars ! (of_char (hash ! i) mod length ValidChars)])
      else result)"
  by pat_completeness auto
termination
  by (relation "measure (\<lambda>(hash, len, i, result). length hash - i)") auto

text \<open>
  The second loop: \<^verbatim>\<open>for result.Len() < length\<close>, appending
  \<open>ValidChars[s.rand.Intn(len(ValidChars))]\<close>; an index outside the string panics.
\<close>

function fillLoop :: "env \<Rightarrow> int \<Rightarrow> string \<Rightarrow> world \<Rightarrow> string exec \<times> world" where
  "fillLoop E len result w =
     (if int (length result) < len
      then (case randIntn E (int (length ValidChars)) w of
              (Panic, w') \<Rightarrow> (Panic, w')
            | (Return charIndex, w') \<Rightarrow>
                if 0 \<le> charIndex \<and> charIndex < int (length ValidChars)
                then fillLoop E len (result @ [ValidChars ! nat charIndex]) w'
                else (Panic, w'))
      else (Return result, w))"
  by pat_completeness auto
termination
  by (relation "measure (\<lambda>(E, len, result, w). nat (len - int (length result)))") auto

declare extractLoop.simps [simp del] fillLoop.simps [simp del]

text \<open>\<open>result.Grow(length)\<close> panics on a negative count.\<close>

definition extractValidChars :: "env \<Rightarrow> string \<Rightarrow> int \<Rightarrow> world \<Rightarrow> string exec \<times> world" where
  "extractValidChars E hash len w =
     (if len < 0 then (Panic, w) else fillLoop E len (extractLoop hash len 0 []) w)"

definition baseString :: "string \<Rightarrow> int \<Rightarrow> int \<Rightarrow> int \<Rightarrow> string" where
  "baseString longURL timestamp randomNum attempt =
     longURL @ ''-'' @ itoa timestamp @ ''-'' @ itoa randomNum @ ''-'' @ itoa attempt"

definition generateShortCode_p2 ::
  "env \<Rightarrow> string \<Rightarrow> int \<Rightarrow> world \<Rightarrow> string exec \<times> world" where
  "generateShortCode_p2 E longURL attempt w =
     (let (timestamp, w1) = now E w;
          (randomNum, w2) = randInt63 E w1;
          hash = EncodeToString (md5Sum E (baseString longURL timestamp randomNum attempt))
      in extractValidChars E hash ShortCodeLength w2)"

subsection \<open>Candidate codes, revision part_001 (createEntryGenerator)\<close>

definition createEntryGenerator ::
  "env \<Rightarrow> string \<Rightarrow> int \<Rightarrow> world \<Rightarrow> (unit \<Rightarrow> string) \<times> world" where
  "createEntryGenerator E longURL attempt w =
     (let (timestamp, w1) = now E w;
          (randomValue, w2) = randInt63 E w1
      in (\<lambda>_. longURL @ ''_'' @ itoa timestamp @ ''_'' @ itoa attempt @ ''_'' @ itoa randomValue,
          w2))"

text \<open>
  \<^verbatim>\<open>for i := 0; i < ShortCodeLength; i++\<close>, storing
  \<open>ValidChars[int(hashString[i]) % len(ValidChars)]\<close> at \<open>result[i]\<close>; reading
  \<open>hashString[i]\<close> beyond the string panics.
\<close>

function convertLoop :: "string \<Rightarrow> nat \<Rightarrow> string \<Rightarrow> string exec" where
  "convertLoop hashString i result =
     (if int i < ShortCodeLength
      then (if i < length hashString
            then convertLoop hashString (Suc i)
                   (result[i := ValidChars ! (of_char (hashString ! i) mod length ValidChars)])
            else Panic)
      else Return result)"
  by pat_completeness auto
termination
  by (relation "measure (\<lambda>(hashString, i, result). nat (ShortCodeLength - int i))") auto

declare convertLoop.simps [simp del]

definition generateShortCode_p1 ::
  "env \<Rightarrow> string \<Rightarrow> int \<Rightarrow> world \<Rightarrow> string exec \<times> world" where
  "generateShortCode_p1 E longURL attempt w =
     (let (entryGenerator, w1) = createEntryGenerator E longURL attempt w;
          entry = entryGenerator ();
          hashString = EncodeToString (md5Sum E entry)
      in (convertLoop hashString 0 (replicate (nat ShortCodeLength) (CHR 0x00)), w1))"

subsection \<open>The two revisions of service.go\<close>

text \<open>
  The repository holds two revisions of the service (src/unnamed/part_001 and
  src/unnamed/part_002). \<open>ShortenURL\<close>, \<open>GetLongURL\<close> and \<open>generateUniqueShortCode\<close> are
  the same text in both; \<open>validateURL\<close> and \<open>generateShortCode\<close> differ, so the shared
  functions take the revision and call the validator and the generator of that
  revision.
\<close>

datatype revision = Part001 | Part002

definition generateShortCode ::
  "revision \<Rightarrow> env \<Rightarrow> string \<Rightarrow> int \<Rightarrow> world \<Rightarrow> string exec \<times> world" where
  "generateShortCode rv =
     (case rv of Part001 \<Rightarrow> generateShortCode_p1 | Part002 \<Rightarrow> generateShortCode_p2)"

subsection \<open>validateURL\<close>

definition validateURL_p2 :: "env \<Rightarrow> string \<Rightarrow> error option" where
  "validateURL_p2 E longURL =
     (if longURL = [] then Some (ValidationError ''long_url'' longURL MsgEmpty)
      else let trimmedURL = TrimSpace longURL in
        if trimmedURL = [] then Some (ValidationError ''long_url'' longURL MsgOnlySpaces)
        else if length trimmedURL < 7 then Some (ValidationError ''long_url'' longURL MsgTooShort)
        else (case urlParse E trimmedURL of
                Inl err \<Rightarrow> Some (ValidationError ''long_url'' longURL (MsgFormat err))
              | Inr parsedURL \<Rightarrow>
                  if Scheme parsedURL \<noteq> ''http'' \<and> Scheme parsedURL \<noteq> ''https''
                  then Some (ValidationError ''long_url'' longURL MsgScheme)
                  else if Host parsedURL = []
                  then Some (ValidationError ''long_url'' longURL MsgHost)
                  else None))"

definition validateURLBasics :: "string \<Rightarrow> error option" where
  "validateURLBasics longURL =
     (if longURL = [] then Some (ValidationError ''long_url'' longURL MsgEmpty)
      else if TrimSpace longURL = [] then Some (ValidationError ''long_url'' longURL MsgOnlySpaces)
      else None)"

definition validateURLFormat :: "env \<Rightarrow> string \<Rightarrow> error option" where
  "validateURLFormat E longURL =
     (case urlParse E longURL of
        Inl err \<Rightarrow> Some (ValidationError ''long_url'' longURL (MsgFormat []))
      | Inr parsedURL \<Rightarrow>
          if Scheme parsedURL \<noteq> ''http'' \<and> Scheme parsedURL \<noteq> ''https''
          then Some (ValidationError ''long_url'' longURL MsgScheme)
          else if Host parsedURL = []
          then Some (ValidationError ''long_url'' longURL MsgHost)
          else None)"

definition blockedDomains :: "string list" where
  "blockedDomains = [''malware.com'', ''phishing.net'', ''spam.org'']"

text \<open>
  \<open>validateURLSecurity\<close> drops the parser's error; on an error the parsed URL is nil
  and reading its host panics. \<open>strings.Contains\<close> is \<open>sublist\<close>.
\<close>

definition validateURLSecurity :: "env \<Rightarrow> string \<Rightarrow> error option exec" where
  "validateURLSecurity E longURL =
     (case urlParse E longURL of
        Inl err \<Rightarrow> Panic
      | Inr parsedURL \<Rightarrow>
          if list_ex (\<lambda>blocked. sublist blocked (Host parsedURL)) blockedDomains
          then Return (Some (ValidationError ''long_url'' longURL MsgBlocked))
          else Return None)"

definition validateURL_p1 :: "env \<Rightarrow> string \<Rightarrow> error option exec" where
  "validateURL_p1 E longURL =
     (case validateURLBasics longURL of
        Some err \<Rightarrow> Return (Some err)
      | None \<Rightarrow>
          (case validateURLFormat E longURL of
             Some err \<Rightarrow> Return (Some err)
           | None \<Rightarrow> validateURLSecurity E longURL))"

definition validateURL :: "revision \<Rightarrow> env \<Rightarrow> string \<Rightarrow> error option exec" where
  "validateURL rv E longURL =
     (case rv of Part001 \<Rightarrow> validateURL_p1 E longURL
                | Part002 \<Rightarrow> Return (validateURL_p2 E longURL))"

subsection \<open>generateUniqueShortCode\<close>

text \<open>
  The \<open>switch\<close> of the loop body: the candidate of one attempt. The last case reads
  the clock for the suffix before \<open>generateShortCode\<close> reads it again.
\<close>

definition candidate ::
  "revision \<Rightarrow> env \<Rightarrow> string \<Rightarrow> int \<Rightarrow> world \<Rightarrow> string exec \<times> world" where
  "candidate rv E longURL attempt w =
     (if attempt < 3 then generateShortCode rv E longURL attempt w
      else if attempt < 7 then generateShortCode rv E longURL (attempt * 2) w
      else (let (t, w1) = now E w
            in generateShortCode rv E (longURL @ ''_'' @ itoa t) attempt w1))"

text \<open>
  \<^verbatim>\<open>for attempt := 0; attempt < MaxRetries; attempt++\<close>. The result is Go's pair
  \<open>(string, error)\<close>, the error \<open>nil\<close> being \<open>None\<close>.
\<close>

function retryLoop ::
  "revision \<Rightarrow> env \<Rightarrow> string \<Rightarrow> int \<Rightarrow> world \<Rightarrow> (string \<times> error option) exec \<times> world" where
  "retryLoop rv E longURL attempt w =
     (if attempt < MaxRetries
      then (case candidate rv E longURL attempt w of
              (Panic, w1) \<Rightarrow> (Panic, w1)
            | (Return shortCode, w1) \<Rightarrow>
                (case Exists shortCode (store w1) of
                   (found, st) \<Rightarrow>
                     if \<not> found then (Return (shortCode, None), w1\<lparr>store := st\<rparr>)
                     else retryLoop rv E longURL (attempt + 1) (w1\<lparr>store := st\<rparr>)))
      else (Return ([], Some ErrMaxRetries), w))"
  by pat_completeness auto
termination
  by (relation "measure (\<lambda>(rv, E, longURL, attempt, w). nat (MaxRetries - attempt))") auto

declare retryLoop.simps [simp del]

definition generateUniqueShortCode ::
  "revision \<Rightarrow> env \<Rightarrow> string \<Rightarrow> world \<Rightarrow> (string \<times> error option) exec \<times> world" where
  "generateUniqueShortCode rv E longURL w = retryLoop rv E longURL 0 w"

subsection \<open>ShortenURL and GetLongURL\<close>

text \<open>
  A panic below \<open>ShortenURL\<close> is recovered by its deferred function, which returns the
  empty code and the critical error.
\<close>

definition ShortenURL ::
  "revision \<Rightarrow> env \<Rightarrow> string \<Rightarrow> world \<Rightarrow> (string \<times> error option) \<times> world" where
  "ShortenURL rv E longURL w =
     (case validateURL rv E longURL of
        Panic \<Rightarrow> (([], Some ErrCritical), w)
      | Return (Some err) \<Rightarrow> (([], Some err), w)
      | Return None \<Rightarrow>
          (case generateUniqueShortCode rv E longURL w of
             (Panic, w1) \<Rightarrow> (([], Some ErrCritical), w1)
           | (Return (shortCode, Some err), w1) \<Rightarrow> (([], Some err), w1)
           | (Return (shortCode, None), w1) \<Rightarrow>
               ((shortCode, None), w1\<lparr>store := Save shortCode longURL (store w1)\<rparr>)))"

definition GetLongURL :: "string \<Rightarrow> world \<Rightarrow> (string \<times> error option) \<times> world" where
  "GetLongURL shortCode w =
     (let trimmedCode = TrimSpace shortCode in
      if trimmedCode = [] then (([], Some ErrEmptyURL), w)
      else (case Get trimmedCode (store w) of
              ((longURL, found), st) \<Rightarrow>
                if \<not> found then (([], Some ErrURLNotFound), w\<lparr>store := st\<rparr>)
                else ((longURL, None), w\<lparr>store := st\<rparr>)))"

definition GetStats :: "world \<Rightarrow> nat \<times> world" where
  "GetStats w = (case Count (store w) of (n, st) \<Rightarrow> (n, w\<lparr>store := st\<rparr>))"

section \<open>Notions used to state the properties\<close>

text \<open>A byte that neither starts nor ends the encoding of a white-space rune.\<close>

definition plainByte :: "char \<Rightarrow> bool" where
  "plainByte c = (c \<notin> set (map hd spaceRunes) \<and> c \<notin> set (map last spaceRunes))"

text \<open>
  The symbol chosen for a byte: \<open>ValidChars[int(b) % len(ValidChars)]\<close>, the expression
  both generators use.
\<close>

definition selectChar :: "char \<Rightarrow> char" where
  "selectChar = (\<lambda>c. ValidChars ! (of_char c mod length ValidChars))"

text \<open>
  The string a revision hashes for a target, a clock reading, a random value and an
  attempt number: the entry of \<open>createEntryGenerator\<close> in part_001, \<open>baseString\<close> in
  part_002.
\<close>

definition composite :: "revision \<Rightarrow> string \<Rightarrow> int \<Rightarrow> int \<Rightarrow> int \<Rightarrow> string" where
  "composite rv longURL timestamp random attempt =
     (case rv of
        Part001 \<Rightarrow> longURL @ ''_'' @ itoa timestamp @ ''_'' @ itoa attempt @ ''_'' @ itoa random
      | Part002 \<Rightarrow> longURL @ ''-'' @ itoa timestamp @ ''-'' @ itoa random @ ''-'' @ itoa attempt)"

text \<open>
  The run of the retry loop, attempt by attempt: \<open>attemptWorld rv E longURL w k\<close> is the
  world in which attempt \<open>k\<close> starts when the loop is entered in \<open>w\<close> and has not
  returned before, \<open>attemptCode\<close> is the candidate of that attempt, and \<open>collides\<close>
  says that \<open>Exists\<close> finds it in the store.
\<close>

primrec attemptWorld :: "revision \<Rightarrow> env \<Rightarrow> string \<Rightarrow> world \<Rightarrow> nat \<Rightarrow> world" where
  "attemptWorld rv E longURL w 0 = w"
| "attemptWorld rv E longURL w (Suc k) =
     snd (candidate rv E longURL (int k) (attemptWorld rv E longURL w k))"

definition attemptCode :: "revision \<Rightarrow> env \<Rightarrow> string \<Rightarrow> world \<Rightarrow> nat \<Rightarrow> string exec" where
  "attemptCode rv E longURL w k =
     fst (candidate rv E longURL (int k) (attemptWorld rv E longURL w k))"

definition collides :: "revision \<Rightarrow> env \<Rightarrow> string \<Rightarrow> world \<Rightarrow> nat \<Rightarrow> bool" where
  "collides rv E longURL w k =
     (case attemptCode rv E longURL w k of
        Return shortCode \<Rightarrow> fst (Exists shortCode (store w))
      | Panic \<Rightarrow> False)"

text \<open>The first of the attempts 0..9 whose candidate does not collide, if there is one.\<close>

definition firstFree :: "revision \<Rightarrow> env \<Rightarrow> string \<Rightarrow> world \<Rightarrow> nat option" where
  "firstFree rv E longURL w =
     List.find (\<lambda>k. \<not> collides rv E longURL w k) [0..<nat MaxRetries]"

text \<open>The code made from the MD5 digest of a hashed string, when the digest has 16 bytes.\<close>

definition codeOf :: "env \<Rightarrow> string \<Rightarrow> string" where
  "codeOf E s = map selectChar (take 6 (EncodeToString (md5Sum E s)))"

text \<open>
  The string that an attempt hashes when it starts in world \<open>w\<close>: the composite input
  of its tier.
\<close>

definition hashedAt :: "revision \<Rightarrow> env \<Rightarrow> string \<Rightarrow> int \<Rightarrow> world \<Rightarrow> string" where
  "hashedAt rv E longURL attempt w =
     (if attempt < 3
      then composite rv longURL (UnixNano E (clock w)) (Int63 E (rng w)) attempt
      else if attempt < 7
      then composite rv longURL (UnixNano E (clock w)) (Int63 E (rng w)) (attempt * 2)
      else composite rv (longURL @ ''_'' @ itoa (UnixNano E (clock w)))
             (UnixNano E (Suc (clock w))) (Int63 E (rng w)) attempt)"

text \<open>
  The clock readings taken by the attempts before attempt \<open>k\<close>: one for each of the
  attempts 0..6, two for each later one.
\<close>

definition readsBefore :: "nat \<Rightarrow> nat" where
  "readsBefore k = k + (k - 7)"

text \<open>
  Two concurrent \<open>ShortenURL\<close> calls on one service. The store's lock makes each
  \<open>Exists\<close> and each \<open>Save\<close> one indivisible step, and nothing else is: a caller is
  at the start of the call, before attempt \<open>k\<close> of the retry loop, past the loop with
  a code that \<open>Exists\<close> reported absent and not yet saved, or finished with its
  result. One step of a caller is the validation, one iteration of the loop (the
  candidate and its \<open>Exists\<close> check) or the \<open>Save\<close>; the clock and the random source
  are shared, and an iteration takes its readings in one piece.
\<close>

datatype pc = Start | Attempt int | Won string | Finished "string \<times> error option"

definition stepCaller :: "revision \<Rightarrow> env \<Rightarrow> string \<Rightarrow> pc \<Rightarrow> world \<Rightarrow> pc \<times> world" where
  "stepCaller rv E longURL p w =
     (case p of
        Start \<Rightarrow>
          (case validateURL rv E longURL of
             Panic \<Rightarrow> (Finished ([], Some ErrCritical), w)
           | Return (Some err) \<Rightarrow> (Finished ([], Some err), w)
           | Return None \<Rightarrow> (Attempt 0, w))
      | Attempt attempt \<Rightarrow>
          if attempt < MaxRetries
          then (case candidate rv E longURL attempt w of
                  (Panic, w1) \<Rightarrow> (Finished ([], Some ErrCritical), w1)
                | (Return shortCode, w1) \<Rightarrow>
                    (case Exists shortCode (store w1) of
                       (found, st) \<Rightarrow>
                         if \<not> found then (Won shortCode, w1\<lparr>store := st\<rparr>)
                         else (Attempt (attempt + 1), w1\<lparr>store := st\<rparr>)))
          else (Finished ([], Some ErrMaxRetries), w)
      | Won shortCode \<Rightarrow>
          (Finished (shortCode, None), w\<lparr>store := Save shortCode longURL (store w)\<rparr>)
      | Finished r \<Rightarrow> (Finished r, w))"

text \<open>
  What a step lets an observer see: a caller finding a code absent, and a caller
  saving a code with its target.
\<close>

datatype who = First | Second

datatype event = Absent who string | Saved who string string

definition eventOf :: "who \<Rightarrow> string \<Rightarrow> pc \<Rightarrow> pc \<Rightarrow> event list" where
  "eventOf i longURL p p' =
     (case p of
        Attempt attempt \<Rightarrow> (case p' of Won shortCode \<Rightarrow> [Absent i shortCode] | _ \<Rightarrow> [])
      | Won shortCode \<Rightarrow> [Saved i shortCode longURL]
      | _ \<Rightarrow> [])"

text \<open>
  The two callers, the world they share and the events so far, the latest first.
\<close>

record system =
  shared :: world
  first :: pc
  second :: pc
  events :: "event list"


definition step :: "revision \<Rightarrow> env \<Rightarrow> string \<Rightarrow> string \<Rightarrow> who \<Rightarrow> system \<Rightarrow> system" where
  "step rv E url1 url2 i s =
     (case i of
        First \<Rightarrow>
          (case stepCaller rv E url1 (first s) (shared s) of
             (p, w) \<Rightarrow>
               s\<lparr>shared := w, first := p, events := eventOf First url1 (first s) p @ events s\<rparr>)
      | Second \<Rightarrow>
          (case stepCaller rv E url2 (second s) (shared s) of
             (p, w) \<Rightarrow>
               s\<lparr>shared := w, second := p,
                 events := eventOf Second url2 (second s) p @ events s\<rparr>))"

text \<open>A schedule names the caller that takes each next step.\<close>

fun run :: "revision \<Rightarrow> env \<Rightarrow> string \<Rightarrow> string \<Rightarrow> who list \<Rightarrow> system \<Rightarrow> system" where
  "run rv E url1 url2 [] s = s"
| "run rv E url1 url2 (i # sched) s = run rv E url1 url2 sched (step rv E url1 url2 i s)"




text \<open>
  A run of calls in sequence: each target is shortened and the returned code is
  resolved at once. The result lists, for every target, what \<open>ShortenURL\<close> and what
  \<open>GetLongURL\<close> returned.
\<close>

fun session ::
  "revision \<Rightarrow> env \<Rightarrow> string list \<Rightarrow> world \<Rightarrow>
   ((string \<times> error option) \<times> (string \<times> error option)) list \<times> world" where
  "session rv E [] w = ([], w)"
| "session rv E (longURL # rest) w =
     (case ShortenURL rv E longURL w of
        (generated, w1) \<Rightarrow>
          (case GetLongURL (fst generated) w1 of
             (resolved, w2) \<Rightarrow>
               (case session rv E rest w2 of
                  (results, w3) \<Rightarrow> ((generated, resolved) # results, w3))))"

text \<open>
  The candidate as the specification words it: each of the first \<open>ShortCodeLength\<close>
  digest bytes \<open>b\<close> mapped to \<open>ValidChars[b mod 62]\<close>. This is not the code's function;
  it is compared with \<open>generateShortCode\<close> below.
\<close>

definition specCandidate :: "byte list \<Rightarrow> string" where
  "specCandidate digest =
     map (\<lambda>b. ValidChars ! (unat b mod length ValidChars)) (take (nat ShortCodeLength) digest)"

text \<open>Lowercase letters, uppercase letters and digits, by their ASCII codes.\<close>

definition alnum :: "char \<Rightarrow> bool" where
  "alnum c =
     (let n = (of_char c :: nat)
      in (97 \<le> n \<and> n \<le> 122) \<or> (65 \<le> n \<and> n \<le> 90) \<or> (48 \<le> n \<and> n \<le> 57))"

section \<open>A sample environment\<close>

text \<open>
  A concrete environment for the examples. The clock reads 1700000000000000000 ns and
  advances 1000 ns per reading, the random source yields 4242424242, 4242424249, ...,
  \<open>md5Table\<close> gives the MD5 digest (RFC 1321) of every string the examples hash and
  sixteen zero bytes for any other string, and \<open>parseTable\<close> parses the sample URLs.
\<close>

definition md5Table :: "string \<Rightarrow> byte list" where
  "md5Table s =
     (if s = ''https://example.com/a-1700000000000000000-4242424242-0''
      then [0x8E, 0xF9, 0xBC, 0x7D, 0x87, 0x0B, 0x99, 0x07, 0x83, 0x80, 0x81, 0x48, 0xA9, 0xF2, 0x3C, 0xA6]
      else if s = ''https://example.com/a-1700000000000001000-4242424249-1''
      then [0xA5, 0x12, 0xFA, 0x6E, 0xC6, 0xF9, 0x89, 0xF7, 0xDD, 0xDD, 0xB5, 0x8D, 0x45, 0x28, 0xE8, 0x74]
      else if s = ''https://example.com/a-1700000000000002000-4242424256-2''
      then [0xF8, 0x7F, 0x0E, 0x6A, 0x76, 0xD5, 0xE8, 0x97, 0x70, 0x38, 0x8E, 0x4D, 0xE6, 0x23, 0x57, 0xDF]
      else if s = ''https://example.com/a-1700000000000003000-4242424263-6''
      then [0xB0, 0xC2, 0xAC, 0xC7, 0x21, 0xE8, 0x33, 0x8C, 0x4E, 0x43, 0xB7, 0xD1, 0x22, 0x81, 0x6E, 0xFE]
      else if s = ''https://example.com/a-1700000000000004000-4242424270-8''
      then [0xD5, 0x65, 0xC4, 0xFE, 0xDE, 0xA7, 0xB1, 0xBD, 0x97, 0xF9, 0x1A, 0xC7, 0xB3, 0xFC, 0xAF, 0x02]
      else if s = ''https://example.com/a-1700000000000005000-4242424277-10''
      then [0xD7, 0x12, 0x1D, 0x6D, 0x45, 0xC4, 0x57, 0x29, 0xA3, 0x62, 0xC6, 0xBA, 0xFB, 0xB8, 0x0F, 0x65]
      else if s = ''https://example.com/a-1700000000000006000-4242424284-12''
      then [0x9F, 0x7C, 0x6E, 0x99, 0x3D, 0xEA, 0x3F, 0x86, 0xE8, 0x4E, 0x6E, 0x5F, 0xB4, 0x9C, 0x1E, 0x55]
      else if s = ''https://example.com/a_1700000000000007000-1700000000000008000-4242424291-7''
      then [0x1E, 0x1C, 0xAF, 0xDE, 0x24, 0x8E, 0xB9, 0x69, 0xCE, 0x78, 0xC8, 0xFE, 0x6C, 0xB4, 0x72, 0x28]
      else if s = ''https://example.com/a_1700000000000009000-1700000000000010000-4242424298-8''
      then [0xB2, 0x00, 0xF0, 0x34, 0xC7, 0xAE, 0x47, 0x82, 0xF2, 0xE7, 0x31, 0xE3, 0x45, 0xC9, 0x2E, 0xF7]
      else if s = ''https://example.com/a_1700000000000011000-1700000000000012000-4242424305-9''
      then [0x6E, 0x6C, 0xA0, 0x6B, 0xB0, 0xC4, 0xDE, 0x55, 0x2C, 0x09, 0x3B, 0xA1, 0x97, 0xE4, 0xA9, 0x34]
      else if s = '' https://go.dev/doc -1700000000000001000-4242424249-0''
      then [0x32, 0x05, 0x18, 0x2A, 0xF2, 0x0C, 0xE3, 0x16, 0xE1, 0xEB, 0xC2, 0x4E, 0xCB, 0x76, 0xD7, 0xC2]
      else if s = ''https://example.com/a_1700000000000000000_0_4242424242''
      then [0x20, 0x53, 0xEA, 0x5B, 0xF5, 0x1E, 0xB8, 0x97, 0xFE, 0x3C, 0xE6, 0xF5, 0x7C, 0xF1, 0x13, 0x20]
      else if s = ''https://example.com/b/41947636-1700000000000001000-4242424249-0''
      then [0x8E, 0xF9, 0xBC, 0xE7, 0xEB, 0xC0, 0xC2, 0xE0, 0xF7, 0x94, 0x67, 0x21, 0x55, 0x70, 0xB4, 0x74]
      else replicate 16 0)"

definition parseTable :: "string \<Rightarrow> string + URL" where
  "parseTable s =
     (if s = ''https://example.com/a''
      then Inr \<lparr>Scheme = ''https'', Host = ''example.com''\<rparr>
      else if s = ''https://go.dev/doc''
      then Inr \<lparr>Scheme = ''https'', Host = ''go.dev''\<rparr>
      else if s = ''https://example.com/b/41947636''
      then Inr \<lparr>Scheme = ''https'', Host = ''example.com''\<rparr>
      else Inl ''parse error'')"

definition sampleEnv :: env where
  "sampleEnv =
     \<lparr>UnixNano = (\<lambda>k. 1700000000000000000 + 1000 * int k),
      Int63 = (\<lambda>k. 4242424242 + 7 * int k),
      Intn = (\<lambda>k n. 0),
      md5Sum = md5Table,
      urlParse = parseTable\<rparr>"

text \<open>A fresh service, and worlds whose store already holds the first \<open>n\<close> candidate codes
  that the sample environment gives \<open>https://example.com/a\<close> from a fresh clock and source.\<close>

definition startWorld :: world where
  "startWorld = \<lparr>store = NewStore, clock = 0, rng = 0\<rparr>"

definition busyStore :: "nat \<Rightarrow> Store" where
  "busyStore n =
     \<lparr>urls = map_of (take n
        [(''4NO5KL'', ''u0''), (''J1XYOJ'', ''u1''), (''O43OWN'', ''u2''), (''KWLYJL'', ''u3''),
         (''M121L0'', ''u4''), (''M3XYXM'', ''u5''), (''5O3L2N'', ''u6''), (''XNXLJO'', ''u7''),
         (''KYWWOW'', ''u8''), (''2N2LJW'', ''u9'')])\<rparr>"

definition busyWorld :: "nat \<Rightarrow> world" where
  "busyWorld n = \<lparr>store = busyStore n, clock = 0, rng = 0\<rparr>"

text \<open>The worlds after the first and after the second call of the sample run.\<close>

definition afterFirst :: world where
  "afterFirst =
     \<lparr>store = Save ''4NO5KL'' ''https://example.com/a'' NewStore, clock = 1, rng = 1\<rparr>"

definition afterSecond :: world where
  "afterSecond =
     \<lparr>store = Save ''ZYW1X4'' '' https://go.dev/doc ''
                (Save ''4NO5KL'' ''https://example.com/a'' NewStore),
      clock = 2, rng = 2\<rparr>"


section \<open>Facts about TrimSpace\<close>

lemma spaceRunes_nonempty: "r \<in> set spaceRunes \<Longrightarrow> r \<noteq> []"
  by (auto simp: spaceRunes_def)

lemma leadingSpace_0_iff: "leadingSpace s = 0 \<longleftrightarrow> (\<forall>r \<in> set spaceRunes. \<not> prefix r s)"
  by (auto simp: leadingSpace_def find_None_iff find_Some_iff spaceRunes_nonempty
      split: option.splits)

lemma trailingSpace_0_iff: "trailingSpace s = 0 \<longleftrightarrow> (\<forall>r \<in> set spaceRunes. \<not> suffix r s)"
  by (auto simp: trailingSpace_def find_None_iff find_Some_iff spaceRunes_nonempty
      split: option.splits)

lemma trimLeft_suffix: "suffix (trimLeft s) s"
proof (induction s rule: trimLeft.induct)
  case (1 s)
  show ?case
  proof (cases "leadingSpace s = 0")
    case True
    then show ?thesis by (simp add: trimLeft.simps)
  next
    case False
    with 1 have "suffix (trimLeft (drop (leadingSpace s) s)) (drop (leadingSpace s) s)" by simp
    moreover have "suffix (drop (leadingSpace s) s) s" by (rule suffix_drop)
    ultimately have "suffix (trimLeft (drop (leadingSpace s) s)) s" by (rule suffix_order.trans)
    with False show ?thesis by (simp add: trimLeft.simps)
  qed
qed

lemma trimLeft_leading: "leadingSpace (trimLeft s) = 0"
  by (induction s rule: trimLeft.induct) (simp add: trimLeft.simps)

lemma trimRight_prefix: "prefix (trimRight s) s"
proof (induction s rule: trimRight.induct)
  case (1 s)
  show ?case
  proof (cases "trailingSpace s = 0")
    case True
    then show ?thesis by (simp add: trimRight.simps)
  next
    case False
    let ?t = "take (length s - trailingSpace s) s"
    from 1 False have "prefix (trimRight ?t) ?t" by simp
    moreover have "prefix ?t s" by (rule take_is_prefix)
    ultimately have "prefix (trimRight ?t) s" by (rule prefix_order.trans)
    with False show ?thesis by (simp add: trimRight.simps)
  qed
qed

lemma trimRight_trailing: "trailingSpace (trimRight s) = 0"
  by (induction s rule: trimRight.induct) (simp add: trimRight.simps)

lemma trimRight_leading: "leadingSpace s = 0 \<Longrightarrow> leadingSpace (trimRight s) = 0"
  unfolding leadingSpace_0_iff
  using trimRight_prefix [of s] prefix_order.trans by blast

lemma TrimSpace_trimmed: "leadingSpace (TrimSpace s) = 0 \<and> trailingSpace (TrimSpace s) = 0"
  by (simp add: TrimSpace_def trimRight_trailing trimRight_leading trimLeft_leading)

lemma TrimSpace_sublist: "sublist (TrimSpace s) s"
proof -
  have "sublist (trimRight (trimLeft s)) (trimLeft s)"
    using trimRight_prefix by (rule prefix_imp_sublist)
  moreover have "sublist (trimLeft s) s"
    using trimLeft_suffix by (rule suffix_imp_sublist)
  ultimately show ?thesis
    unfolding TrimSpace_def by (rule sublist_order.order.trans)
qed

lemma TrimSpace_empty: "TrimSpace [] = []"
  by (simp add: TrimSpace_def trimLeft.simps trimRight.simps leadingSpace_def
      trailingSpace_def spaceRunes_def suffix_to_prefix)

lemma TrimSpace_blanks: "TrimSpace ''   '' = []"
  by (simp add: TrimSpace_def trimLeft.simps trimRight.simps leadingSpace_def
      trailingSpace_def spaceRunes_def suffix_to_prefix)

lemma TrimSpace_plain:
  assumes "s \<noteq> []" and "plainByte (hd s)" and "plainByte (last s)"
  shows "TrimSpace s = s"
proof -
  have "\<not> prefix r s" if "r \<in> set spaceRunes" for r
  proof
    assume "prefix r s"
    with that assms(1) have "hd r = hd s"
      by (metis spaceRunes_nonempty hd_append2 prefixE)
    moreover from that have "hd r \<in> set (map hd spaceRunes)" by simp
    ultimately show False using assms(2) by (simp add: plainByte_def)
  qed
  then have l: "leadingSpace s = 0" by (simp add: leadingSpace_0_iff)
  have "\<not> suffix r s" if "r \<in> set spaceRunes" for r
  proof
    assume "suffix r s"
    with that assms(1) have "last r = last s"
      by (metis spaceRunes_nonempty last_appendR suffixE)
    moreover from that have "last r \<in> set (map last spaceRunes)" by simp
    ultimately show False using assms(3) by (simp add: plainByte_def)
  qed
  then have t: "trailingSpace s = 0" by (simp add: trailingSpace_0_iff)
  from l t show ?thesis by (simp add: TrimSpace_def trimLeft.simps trimRight.simps)
qed

section \<open>Facts about the alphabet and the hex encoding\<close>

lemma length_ValidChars: "length ValidChars = 62"
  by (simp add: ValidChars_def)

lemma distinct_ValidChars: "distinct ValidChars"
  by (simp add: ValidChars_def)

lemma ValidChars_nth_mem: "n < 62 \<Longrightarrow> ValidChars ! n \<in> set ValidChars"
  by (simp add: length_ValidChars)

lemma selectChar_mem: "selectChar c \<in> set ValidChars"
  by (simp add: selectChar_def length_ValidChars)

lemma ValidChars_plain: "\<forall>c \<in> set ValidChars. plainByte c"
  by (simp add: ValidChars_def plainByte_def spaceRunes_def)

lemma high_nibble: "unat (drop_bit 4 (v :: byte)) < 16"
proof -
  have "unat v < 256" using unsigned_less [of v] by simp
  then have "unat v div 16 < 16" by simp
  then show ?thesis by (simp add: unat_drop_bit_eq drop_bit_eq_div unat_div)
qed

lemma low_nibble: "unat ((v :: byte) AND 0x0f) < 16"
proof -
  have "unat (v AND 0x0f) \<le> unat (0x0f :: byte)"
    by (rule word_le_nat_alt [THEN iffD1]) (rule word_and_le1)
  then show ?thesis by simp
qed

lemma hextable_nth_mem: "n < 16 \<Longrightarrow> hextable ! n \<in> set hextable"
  by (rule nth_mem) (simp add: hextable_def)

lemma EncodeToString_chars: "set (EncodeToString src) \<subseteq> set hextable"
  by (auto simp: EncodeToString_def high_nibble low_nibble hextable_nth_mem)

lemma length_EncodeToString: "length (EncodeToString src) = 2 * length src"
  by (induction src) (simp_all add: EncodeToString_def)

lemma selectChar_hex: "\<forall>h \<in> set hextable. selectChar h \<in> set ''JKLMNOWXYZ012345''"
  by (simp add: hextable_def selectChar_def ValidChars_def)

section \<open>The loops of the generators\<close>

lemma extractLoop_eq:
  "extractLoop hash len i result =
     result @ map selectChar (take (nat (len - int (length result))) (drop i hash))"
proof (induction hash len i result rule: extractLoop.induct)
  case (1 hash len i result)
  show ?case
  proof (cases "i < length hash \<and> int (length result) < len")
    case True
    then have n: "nat (len - int (length result)) = Suc (nat (len - (1 + int (length result))))"
      by linarith
    from True have d: "drop i hash = hash ! i # drop (Suc i) hash"
      by (simp add: Cons_nth_drop_Suc)
    from True 1 have
      "extractLoop hash len i result =
         (result @ [selectChar (hash ! i)]) @
           map selectChar (take (nat (len - (1 + int (length result)))) (drop (Suc i) hash))"
      by (subst extractLoop.simps) (simp add: selectChar_def)
    then show ?thesis by (simp add: n d)
  next
    case False
    then have "take (nat (len - int (length result))) (drop i hash) = []"
      by auto
    with False show ?thesis by (subst extractLoop.simps) auto
  qed
qed

lemma fillLoop_done: "len \<le> int (length result) \<Longrightarrow> fillLoop E len result w = (Return result, w)"
  by (subst fillLoop.simps) simp

lemma fillLoop_shape:
  "fillLoop E len result w = (Return r, w') \<Longrightarrow> set result \<subseteq> set ValidChars \<Longrightarrow>
   int (length result) \<le> len \<Longrightarrow> set r \<subseteq> set ValidChars \<and> int (length r) = len"
proof (induction E len result w rule: fillLoop.induct)
  case (1 E len result w)
  show ?case
  proof (cases "int (length result) < len")
    case False
    with "1.prems" show ?thesis by (simp add: fillLoop_done)
  next
    case True
    obtain x w1 where rI: "randIntn E (int (length ValidChars)) w = (x, w1)"
      by (cases "randIntn E (int (length ValidChars)) w")
    show ?thesis
    proof (cases x)
      case Panic
      with True rI "1.prems"(1) show ?thesis by (subst (asm) fillLoop.simps) simp
    next
      case (Return charIndex)
      show ?thesis
      proof (cases "0 \<le> charIndex \<and> charIndex < int (length ValidChars)")
        case False
        with True rI Return "1.prems"(1) show ?thesis
          by (subst (asm) fillLoop.simps) auto
      next
        case inr: True
        with True rI Return "1.prems"(1)
        have run: "fillLoop E len (result @ [ValidChars ! nat charIndex]) w1 = (Return r, w')"
          by (subst (asm) fillLoop.simps) simp
        from inr have "nat charIndex < length ValidChars" by linarith
        then have "ValidChars ! nat charIndex \<in> set ValidChars" by (rule nth_mem)
        with "1.prems"(2) have sub: "set (result @ [ValidChars ! nat charIndex]) \<subseteq> set ValidChars"
          by simp
        from True have len: "int (length (result @ [ValidChars ! nat charIndex])) \<le> len" by simp
        from "1.IH" [OF True rI [symmetric] Return inr run sub len] show ?thesis .
      qed
    qed
  qed
qed

lemma fillLoop_store: "store (snd (fillLoop E len result w)) = store w"
proof (induction E len result w rule: fillLoop.induct)
  case (1 E len result w)
  show ?case
  proof (cases "int (length result) < len")
    case False
    then show ?thesis by (simp add: fillLoop_done)
  next
    case True
    obtain x w1 where rI: "randIntn E (int (length ValidChars)) w = (x, w1)"
      by (cases "randIntn E (int (length ValidChars)) w")
    then have s1: "store w1 = store w"
      by (auto simp: randIntn_def split: if_splits)
    show ?thesis
    proof (cases x)
      case Panic
      with True rI s1 show ?thesis by (subst fillLoop.simps) simp
    next
      case (Return charIndex)
      show ?thesis
      proof (cases "0 \<le> charIndex \<and> charIndex < int (length ValidChars)")
        case False
        with True rI Return s1 show ?thesis by (subst fillLoop.simps) auto
      next
        case inr: True
        from "1.IH" [OF True rI [symmetric] Return inr] s1
        have "store (snd (fillLoop E len (result @ [ValidChars ! nat charIndex]) w1)) = store w"
          by simp
        with True rI Return inr show ?thesis by (subst fillLoop.simps) simp
      qed
    qed
  qed
qed

lemma convertLoop_eq:
  "i \<le> 6 \<Longrightarrow> length result = 6 \<Longrightarrow> 6 \<le> length hashString \<Longrightarrow>
   convertLoop hashString i result =
     Return (take i result @ map selectChar (take (6 - i) (drop i hashString)))"
proof (induction hashString i result rule: convertLoop.induct)
  case (1 hashString i result)
  show ?case
  proof (cases "i < 6")
    case False
    with "1.prems" show ?thesis
      by (subst convertLoop.simps) (simp add: ShortCodeLength_def)
  next
    case True
    let ?r = "result[i := selectChar (hashString ! i)]"
    from True "1.prems" have inr: "i < length hashString" by simp
    from True have c: "int i < ShortCodeLength" by (simp add: ShortCodeLength_def)
    have "convertLoop hashString (Suc i) ?r =
            Return (take (Suc i) ?r @ map selectChar (take (6 - Suc i) (drop (Suc i) hashString)))"
      using "1.IH" [OF c inr] True "1.prems" by (simp add: selectChar_def)
    moreover have "take (Suc i) ?r = take i result @ [selectChar (hashString ! i)]"
      using True "1.prems" by (simp add: take_Suc_conv_app_nth)
    moreover have "take (6 - i) (drop i hashString) =
                     hashString ! i # take (6 - Suc i) (drop (Suc i) hashString)"
    proof -
      from True have "6 - i = Suc (6 - Suc i)" by simp
      moreover from inr have "drop i hashString = hashString ! i # drop (Suc i) hashString"
        by (simp add: Cons_nth_drop_Suc)
      ultimately show ?thesis by (simp only: take_Suc_Cons)
    qed
    ultimately show ?thesis
      using c inr by (subst convertLoop.simps) (simp add: selectChar_def)
  qed
qed

lemma convertLoop_shape:
  "convertLoop hashString i result = Return r \<Longrightarrow> length result = 6 \<Longrightarrow>
   (\<forall>j < i. result ! j \<in> set ValidChars) \<Longrightarrow> length r = 6 \<and> set r \<subseteq> set ValidChars"
proof (induction hashString i result rule: convertLoop.induct)
  case (1 hashString i result)
  show ?case
  proof (cases "int i < ShortCodeLength")
    case False
    then have "6 \<le> i" by (simp add: ShortCodeLength_def)
    moreover from False "1.prems"(1) have "r = result" by (subst (asm) convertLoop.simps) simp
    ultimately show ?thesis using "1.prems"(2,3)
      by (auto simp: in_set_conv_nth)
  next
    case True
    show ?thesis
    proof (cases "i < length hashString")
      case False
      with True "1.prems"(1) show ?thesis by (subst (asm) convertLoop.simps) simp
    next
      case inr: True
      let ?r = "result[i := ValidChars ! (of_char (hashString ! i) mod length ValidChars)]"
      from True inr "1.prems"(1) have run: "convertLoop hashString (Suc i) ?r = Return r"
        by (subst (asm) convertLoop.simps) simp
      have len: "length ?r = 6" using "1.prems"(2) by simp
      have "\<forall>j < Suc i. ?r ! j \<in> set ValidChars"
        using "1.prems"(2,3) True
        by (auto simp: nth_list_update less_Suc_eq length_ValidChars ShortCodeLength_def)
      with "1.IH" [OF True inr run len] show ?thesis by simp
    qed
  qed
qed

section \<open>One candidate\<close>

lemma world_store_same [simp]: "w\<lparr>store := store w\<rparr> = w"
  by simp

lemma generateShortCode_p2_store: "store (snd (generateShortCode_p2 E longURL attempt w)) = store w"
  by (simp add: generateShortCode_p2_def extractValidChars_def now_def randInt63_def
      fillLoop_store Let_def)

lemma generateShortCode_p1_store: "store (snd (generateShortCode_p1 E longURL attempt w)) = store w"
  by (simp add: generateShortCode_p1_def createEntryGenerator_def now_def randInt63_def Let_def)

lemma generateShortCode_store: "store (snd (generateShortCode rv E longURL attempt w)) = store w"
  by (cases rv) (simp_all add: generateShortCode_def generateShortCode_p1_store
      generateShortCode_p2_store)

lemma generateShortCode_p2_shape:
  assumes "generateShortCode_p2 E longURL attempt w = (Return c, w')"
  shows "length c = 6 \<and> set c \<subseteq> set ValidChars"
proof -
  define hash where
    "hash = EncodeToString (md5Sum E (baseString longURL (UnixNano E (clock w))
              (Int63 E (rng w)) attempt))"
  define w2 where "w2 = w\<lparr>clock := Suc (clock w), rng := Suc (rng w)\<rparr>"
  from assms have run: "fillLoop E 6 (extractLoop hash 6 0 []) w2 = (Return c, w')"
    by (simp add: generateShortCode_p2_def extractValidChars_def now_def randInt63_def
        ShortCodeLength_def hash_def w2_def)
  have "set (extractLoop hash 6 0 []) \<subseteq> set ValidChars"
    by (auto simp: extractLoop_eq selectChar_mem)
  moreover have "int (length (extractLoop hash 6 0 [])) \<le> 6"
    by (simp add: extractLoop_eq)
  ultimately have "set c \<subseteq> set ValidChars \<and> int (length c) = 6"
    using run by (rule fillLoop_shape [rotated])
  then show ?thesis by simp
qed

lemma generateShortCode_p1_shape:
  assumes "generateShortCode_p1 E longURL attempt w = (Return c, w')"
  shows "length c = 6 \<and> set c \<subseteq> set ValidChars"
proof -
  from assms obtain hs where "convertLoop hs 0 (replicate 6 (CHR 0x00)) = Return c"
    by (auto simp: generateShortCode_p1_def createEntryGenerator_def now_def randInt63_def
        ShortCodeLength_def Let_def)
  then show ?thesis by (rule convertLoop_shape) simp_all
qed

lemma generateShortCode_shape:
  "generateShortCode rv E longURL attempt w = (Return c, w') \<Longrightarrow>
   length c = 6 \<and> set c \<subseteq> set ValidChars"
  by (cases rv) (simp_all add: generateShortCode_def generateShortCode_p1_shape
      generateShortCode_p2_shape)

lemma generateShortCode_sized:
  assumes "md5_sized E"
  shows "generateShortCode rv E longURL attempt w =
     (Return (map selectChar (take 6 (EncodeToString (md5Sum E
        (composite rv longURL (UnixNano E (clock w)) (Int63 E (rng w)) attempt))))),
      w\<lparr>clock := Suc (clock w), rng := Suc (rng w)\<rparr>)"
proof -
  have len: "length (EncodeToString (md5Sum E s)) = 32" for s
    using assms by (simp add: length_EncodeToString md5_sized_def)
  show ?thesis
  proof (cases rv)
    case Part001
    then show ?thesis
      by (simp add: generateShortCode_def generateShortCode_p1_def createEntryGenerator_def
          now_def randInt63_def ShortCodeLength_def composite_def convertLoop_eq len)
  next
    case Part002
    then show ?thesis
      by (simp add: generateShortCode_def generateShortCode_p2_def extractValidChars_def
          now_def randInt63_def ShortCodeLength_def composite_def baseString_def
          extractLoop_eq fillLoop_done len)
  qed
qed

lemma candidate_store: "store (snd (candidate rv E longURL attempt w)) = store w"
  by (simp add: candidate_def generateShortCode_store now_def Let_def)

lemma candidate_shape:
  "candidate rv E longURL attempt w = (Return c, w') \<Longrightarrow>
   length c = 6 \<and> set c \<subseteq> set ValidChars"
  by (auto simp: candidate_def now_def Let_def dest: generateShortCode_shape split: if_splits)

lemma candidate_tiers:
  "candidate rv E longURL attempt w =
     (if attempt < 3 then generateShortCode rv E longURL attempt w
      else if attempt < 7 then generateShortCode rv E longURL (attempt * 2) w
      else generateShortCode rv E (longURL @ ''_'' @ itoa (UnixNano E (clock w))) attempt
             (w\<lparr>clock := Suc (clock w)\<rparr>))"
  by (simp add: candidate_def now_def)

section \<open>The retry loop\<close>

lemma attemptWorld_store: "store (attemptWorld rv E longURL w k) = store w"
  by (induction k) (simp_all add: candidate_store)

lemma attemptCode_shape:
  "attemptCode rv E longURL w k = Return c \<Longrightarrow> length c = 6 \<and> set c \<subseteq> set ValidChars"
  unfolding attemptCode_def
  by (metis candidate_shape prod.collapse)

lemma retryLoop_step:
  assumes "k < 10"
  shows "retryLoop rv E longURL (int k) (attemptWorld rv E longURL w k) =
     (case attemptCode rv E longURL w k of
        Panic \<Rightarrow> (Panic, attemptWorld rv E longURL w (Suc k))
      | Return c \<Rightarrow>
          if fst (Exists c (store w))
          then retryLoop rv E longURL (int (Suc k)) (attemptWorld rv E longURL w (Suc k))
          else (Return (c, None), attemptWorld rv E longURL w (Suc k)))"
proof -
  let ?w = "attemptWorld rv E longURL w k"
  obtain x w1 where c: "candidate rv E longURL (int k) ?w = (x, w1)"
    by (cases "candidate rv E longURL (int k) ?w")
  then have s: "store w1 = store w"
    using candidate_store [of rv E longURL "int k" ?w] by (simp add: attemptWorld_store)
  from c have w1: "attemptWorld rv E longURL w (Suc k) = w1" by simp
  from c have x: "attemptCode rv E longURL w k = x" by (simp add: attemptCode_def)
  from s have ws: "w1\<lparr>store := store w\<rparr> = w1" by (metis world_store_same)
  have add: "int k + 1 = int (Suc k)" by simp
  show ?thesis
    using assms c
    by (subst retryLoop.simps)
       (simp add: w1 x s ws MaxRetries_def Exists_def add del: attemptWorld.simps of_nat_Suc
          split: exec.splits)
qed

lemma retryLoop_end: "retryLoop rv E longURL 10 w = (Return ([], Some ErrMaxRetries), w)"
  by (subst retryLoop.simps) (simp add: MaxRetries_def)

lemma retryLoop_skip:
  "k \<le> 10 \<Longrightarrow> (\<forall>j < k. collides rv E longURL w j) \<Longrightarrow>
   retryLoop rv E longURL 0 w = retryLoop rv E longURL (int k) (attemptWorld rv E longURL w k)"
proof (induction k)
  case 0
  then show ?case by simp
next
  case (Suc k)
  then have "collides rv E longURL w k" by simp
  then obtain c where "attemptCode rv E longURL w k = Return c" "fst (Exists c (store w))"
    by (auto simp: collides_def split: exec.splits)
  moreover from Suc.prems have "k < 10" by simp
  ultimately have
    "retryLoop rv E longURL (int k) (attemptWorld rv E longURL w k) =
     retryLoop rv E longURL (int (Suc k)) (attemptWorld rv E longURL w (Suc k))"
    by (simp add: retryLoop_step del: attemptWorld.simps of_nat_Suc)
  with Suc show ?case by simp
qed

lemma generateUniqueShortCode_eq:
  "generateUniqueShortCode rv E longURL w =
     (case firstFree rv E longURL w of
        None \<Rightarrow> (Return ([], Some ErrMaxRetries), attemptWorld rv E longURL w 10)
      | Some k \<Rightarrow>
          (case attemptCode rv E longURL w k of
             Return c \<Rightarrow> (Return (c, None), attemptWorld rv E longURL w (Suc k))
           | Panic \<Rightarrow> (Panic, attemptWorld rv E longURL w (Suc k))))"
proof (cases "firstFree rv E longURL w")
  case None
  then have "\<forall>j < 10. collides rv E longURL w j"
    by (auto simp: firstFree_def find_None_iff MaxRetries_def)
  then have "retryLoop rv E longURL 0 w =
               retryLoop rv E longURL (int 10) (attemptWorld rv E longURL w 10)"
    by (intro retryLoop_skip) simp_all
  with None show ?thesis
    by (simp add: generateUniqueShortCode_def retryLoop_end del: attemptWorld.simps)
next
  case (Some k)
  then have k: "k < 10" and free: "\<not> collides rv E longURL w k"
    and before: "\<forall>j < k. collides rv E longURL w j"
    by (auto simp: firstFree_def find_Some_iff MaxRetries_def)
  from k before have "retryLoop rv E longURL 0 w =
                        retryLoop rv E longURL (int k) (attemptWorld rv E longURL w k)"
    by (intro retryLoop_skip) simp_all
  with Some k free show ?thesis
    by (simp add: generateUniqueShortCode_def retryLoop_step collides_def
        del: attemptWorld.simps of_nat_Suc split: exec.splits)
qed

section \<open>The run with 16-byte digests\<close>

lemma candidate_sized:
  assumes "md5_sized E"
  shows "candidate rv E longURL attempt w =
     (Return (codeOf E (hashedAt rv E longURL attempt w)),
      w\<lparr>clock := clock w + (if attempt < 7 then 1 else 2), rng := Suc (rng w)\<rparr>)"
  by (simp add: candidate_tiers generateShortCode_sized [OF assms] codeOf_def hashedAt_def)

lemma attemptWorld_sized:
  assumes "md5_sized E"
  shows "attemptWorld rv E longURL w k =
     w\<lparr>clock := clock w + readsBefore k, rng := rng w + k\<rparr>"
proof (induction k)
  case 0
  then show ?case by (simp add: readsBefore_def)
next
  case (Suc k)
  have "readsBefore (Suc k) = readsBefore k + (if int k < 7 then 1 else 2)"
    unfolding readsBefore_def by (cases "k < 7") auto
  with Suc show ?case
    by (simp add: candidate_sized [OF assms])
qed

lemma attemptCode_sized:
  assumes "md5_sized E"
  shows "attemptCode rv E longURL w k =
     Return (codeOf E (hashedAt rv E longURL (int k)
       (w\<lparr>clock := clock w + readsBefore k, rng := rng w + k\<rparr>)))"
  by (simp add: attemptCode_def attemptWorld_sized [OF assms] candidate_sized [OF assms])

section \<open>ShortenURL and GetLongURL\<close>

lemma ShortenURL_eq:
  "ShortenURL rv E longURL w =
     (case validateURL rv E longURL of
        Panic \<Rightarrow> (([], Some ErrCritical), w)
      | Return (Some err) \<Rightarrow> (([], Some err), w)
      | Return None \<Rightarrow>
          (case firstFree rv E longURL w of
             None \<Rightarrow> (([], Some ErrMaxRetries), attemptWorld rv E longURL w 10)
           | Some k \<Rightarrow>
               (case attemptCode rv E longURL w k of
                  Panic \<Rightarrow> (([], Some ErrCritical), attemptWorld rv E longURL w (Suc k))
                | Return c \<Rightarrow>
                    ((c, None),
                     (attemptWorld rv E longURL w (Suc k))
                       \<lparr>store := Save c longURL (store w)\<rparr>))))"
  by (simp add: ShortenURL_def generateUniqueShortCode_eq attemptWorld_store
      del: attemptWorld.simps split: exec.splits option.splits)

lemma firstFree_Some:
  "firstFree rv E longURL w = Some k \<Longrightarrow>
   k < 10 \<and> \<not> collides rv E longURL w k \<and> (\<forall>j < k. collides rv E longURL w j)"
  by (auto simp: firstFree_def find_Some_iff MaxRetries_def)

lemma firstFree_None:
  "firstFree rv E longURL w = None \<longleftrightarrow> (\<forall>k < 10. collides rv E longURL w k)"
  by (auto simp: firstFree_def find_None_iff MaxRetries_def)

lemma ShortenURL_success:
  assumes "ShortenURL rv E longURL w = ((c, None), w')"
  shows "validateURL rv E longURL = Return None"
    and "\<exists>k. firstFree rv E longURL w = Some k \<and> attemptCode rv E longURL w k = Return c \<and>
           w' = (attemptWorld rv E longURL w (Suc k))\<lparr>store := Save c longURL (store w)\<rparr>"
  using assms
  by (auto simp: ShortenURL_eq simp del: attemptWorld.simps split: exec.splits option.splits)

lemma ShortenURL_fresh:
  assumes "ShortenURL rv E longURL w = ((c, None), w')"
  shows "urls (store w) c = None" and "urls (store w') = (urls (store w))(c \<mapsto> longURL)"
    and "length c = 6" and "set c \<subseteq> set ValidChars"
proof -
  from ShortenURL_success(2) [OF assms] obtain k where
    k: "firstFree rv E longURL w = Some k" and c: "attemptCode rv E longURL w k = Return c"
    and w': "w' = (attemptWorld rv E longURL w (Suc k))\<lparr>store := Save c longURL (store w)\<rparr>"
    by blast
  from firstFree_Some [OF k] c show "urls (store w) c = None"
    by (simp add: collides_def Exists_def split: option.splits)
  from w' show "urls (store w') = (urls (store w))(c \<mapsto> longURL)"
    by (simp add: Save_def del: attemptWorld.simps)
  from attemptCode_shape [OF c] show "length c = 6" and "set c \<subseteq> set ValidChars"
    by simp_all
qed

lemma code_plain:
  assumes "length c = 6" and "set c \<subseteq> set ValidChars"
  shows "TrimSpace c = c"
proof (rule TrimSpace_plain)
  from assms(1) show ne: "c \<noteq> []" by auto
  then have "hd c \<in> set c" and "last c \<in> set c" by simp_all
  with assms(2) ValidChars_plain show "plainByte (hd c)" and "plainByte (last c)"
    by blast+
qed

lemma GetLongURL_eq:
  "GetLongURL shortCode w =
     (if TrimSpace shortCode = [] then (([], Some ErrEmptyURL), w)
      else (case urls (store w) (TrimSpace shortCode) of
              None \<Rightarrow> (([], Some ErrURLNotFound), w)
            | Some longURL \<Rightarrow> ((longURL, None), w)))"
  by (simp add: GetLongURL_def Get_def Let_def split: option.splits)

lemma ShortenURL_then_GetLongURL:
  assumes "ShortenURL rv E longURL w = ((c, None), w')"
  shows "GetLongURL c w' = ((longURL, None), w')"
proof -
  note f = ShortenURL_fresh [OF assms]
  from f(3,4) have "TrimSpace c = c" by (rule code_plain)
  moreover from f(3) have "c \<noteq> []" by auto
  ultimately show ?thesis by (simp add: GetLongURL_eq f(2))
qed

lemma firstFreeI:
  "k < 10 \<Longrightarrow> \<not> collides rv E longURL w k \<Longrightarrow> (\<forall>j < k. collides rv E longURL w j) \<Longrightarrow>
   firstFree rv E longURL w = Some k"
  unfolding firstFree_def find_Some_iff MaxRetries_def
  by (rule exI [of _ k]) simp

lemma ShortenURL_first:
  assumes "md5_sized E" and "validateURL rv E longURL = Return None"
    and "codeOf E (hashedAt rv E longURL 0 w) = c" and "urls (store w) c = None"
  shows "ShortenURL rv E longURL w =
     ((c, None), w\<lparr>clock := Suc (clock w), rng := Suc (rng w),
                    store := Save c longURL (store w)\<rparr>)"
proof -
  have a: "attemptCode rv E longURL w 0 = Return c"
    using assms(3) by (simp add: attemptCode_sized [OF assms(1)] readsBefore_def)
  with assms(4) have "\<not> collides rv E longURL w 0"
    by (simp add: collides_def Exists_def)
  then have "firstFree rv E longURL w = Some 0"
    by (intro firstFreeI) simp_all
  with a assms(2) show ?thesis
    by (simp add: ShortenURL_eq attemptWorld_sized [OF assms(1)] readsBefore_def
        del: attemptWorld.simps)
qed

section \<open>Concurrent callers\<close>
























section \<open>The sample environment, evaluated\<close>

lemma sampleEnv_sized: "md5_sized sampleEnv"
  by (simp add: md5_sized_def sampleEnv_def md5Table_def)

lemmas sample_eval =
  sampleEnv_def hashedAt_def readsBefore_def composite_def itoa_def digits.simps codeOf_def
  md5Table_def EncodeToString_def hextable_def selectChar_def ValidChars_def

lemmas trim_eval =
  TrimSpace_def trimLeft.simps trimRight.simps leadingSpace_def trailingSpace_def
  spaceRunes_def suffix_to_prefix

lemma sample_valid_A2: "validateURL Part002 sampleEnv ''https://example.com/a'' = Return None"
  by (simp add: validateURL_def validateURL_p2_def trim_eval sampleEnv_def parseTable_def)

lemma sample_valid_B2: "validateURL Part002 sampleEnv '' https://go.dev/doc '' = Return None"
  by (simp add: validateURL_def validateURL_p2_def trim_eval sampleEnv_def parseTable_def)

lemma sample_valid_A1: "validateURL Part001 sampleEnv ''https://example.com/a'' = Return None"
  by (simp add: validateURL_def validateURL_p1_def validateURLBasics_def validateURLFormat_def
      validateURLSecurity_def blockedDomains_def trim_eval sampleEnv_def parseTable_def
      sublist_code)

lemma sample_attempt_0:
  "clock w = 0 \<Longrightarrow> rng w = 0 \<Longrightarrow>
   attemptCode Part002 sampleEnv ''https://example.com/a'' w 0 = Return ''4NO5KL''"
  by (subst attemptCode_sized [OF sampleEnv_sized]) (simp add: sample_eval)

lemma sample_attempt_1:
  "clock w = 0 \<Longrightarrow> rng w = 0 \<Longrightarrow>
   attemptCode Part002 sampleEnv ''https://example.com/a'' w (Suc 0) = Return ''J1XYOJ''"
  by (subst attemptCode_sized [OF sampleEnv_sized]) (simp add: sample_eval)

lemma sample_attempt_2:
  "clock w = 0 \<Longrightarrow> rng w = 0 \<Longrightarrow>
   attemptCode Part002 sampleEnv ''https://example.com/a'' w 2 = Return ''O43OWN''"
  by (subst attemptCode_sized [OF sampleEnv_sized]) (simp add: sample_eval)

lemma sample_attempt_3:
  "clock w = 0 \<Longrightarrow> rng w = 0 \<Longrightarrow>
   attemptCode Part002 sampleEnv ''https://example.com/a'' w 3 = Return ''KWLYJL''"
  by (subst attemptCode_sized [OF sampleEnv_sized]) (simp add: sample_eval)

lemma sample_attempt_4:
  "clock w = 0 \<Longrightarrow> rng w = 0 \<Longrightarrow>
   attemptCode Part002 sampleEnv ''https://example.com/a'' w 4 = Return ''M121L0''"
  by (subst attemptCode_sized [OF sampleEnv_sized]) (simp add: sample_eval)

lemma sample_attempt_5:
  "clock w = 0 \<Longrightarrow> rng w = 0 \<Longrightarrow>
   attemptCode Part002 sampleEnv ''https://example.com/a'' w 5 = Return ''M3XYXM''"
  by (subst attemptCode_sized [OF sampleEnv_sized]) (simp add: sample_eval)

lemma sample_attempt_6:
  "clock w = 0 \<Longrightarrow> rng w = 0 \<Longrightarrow>
   attemptCode Part002 sampleEnv ''https://example.com/a'' w 6 = Return ''5O3L2N''"
  by (subst attemptCode_sized [OF sampleEnv_sized]) (simp add: sample_eval)

lemma sample_attempt_7:
  "clock w = 0 \<Longrightarrow> rng w = 0 \<Longrightarrow>
   attemptCode Part002 sampleEnv ''https://example.com/a'' w 7 = Return ''XNXLJO''"
  by (subst attemptCode_sized [OF sampleEnv_sized]) (simp add: sample_eval)

lemma sample_attempt_8:
  "clock w = 0 \<Longrightarrow> rng w = 0 \<Longrightarrow>
   attemptCode Part002 sampleEnv ''https://example.com/a'' w 8 = Return ''KYWWOW''"
  by (subst attemptCode_sized [OF sampleEnv_sized]) (simp add: sample_eval)

lemma sample_attempt_9:
  "clock w = 0 \<Longrightarrow> rng w = 0 \<Longrightarrow>
   attemptCode Part002 sampleEnv ''https://example.com/a'' w 9 = Return ''2N2LJW''"
  by (subst attemptCode_sized [OF sampleEnv_sized]) (simp add: sample_eval)

lemmas sample_attempts =
  sample_attempt_0 sample_attempt_1 sample_attempt_2 sample_attempt_3 sample_attempt_4 sample_attempt_5 sample_attempt_6 sample_attempt_7 sample_attempt_8 sample_attempt_9

lemma sample_collides_10:
  assumes "k < 10"
  shows "collides Part002 sampleEnv ''https://example.com/a'' (busyWorld 10) k"
proof -
  from assms have "k \<in> {0, 1, 2, 3, 4, 5, 6, 7, 8, 9}" by auto
  then show ?thesis
    by (elim insertE emptyE)
       (simp_all add: collides_def sample_attempts busyWorld_def busyStore_def Exists_def)
qed

lemma sample_collides_8:
  assumes "k < 8"
  shows "collides Part002 sampleEnv ''https://example.com/a'' (busyWorld 8) k"
proof -
  from assms have "k \<in> {0, 1, 2, 3, 4, 5, 6, 7}" by auto
  then show ?thesis
    by (elim insertE emptyE)
       (simp_all add: collides_def sample_attempts busyWorld_def busyStore_def Exists_def)
qed

lemma sample_free_8:
  "\<not> collides Part002 sampleEnv ''https://example.com/a'' (busyWorld 8) 8"
  by (simp add: collides_def sample_attempts busyWorld_def busyStore_def Exists_def)

section \<open>Codes and hex characters\<close>

lemma ValidChars_alnum: "list_all alnum ValidChars"
  by (simp add: ValidChars_def alnum_def)

lemma EncodeToString_nth:
  "j < length src \<Longrightarrow>
   EncodeToString src ! (2 * j) = hextable ! unat (drop_bit 4 (src ! j)) \<and>
   EncodeToString src ! (2 * j + 1) = hextable ! unat (src ! j AND 0x0f)"
proof (induction src arbitrary: j)
  case Nil
  then show ?case by simp
next
  case (Cons v vs)
  have e: "EncodeToString (v # vs) =
             hextable ! unat (drop_bit 4 v) # hextable ! unat (v AND 0x0f) # EncodeToString vs"
    by (simp add: EncodeToString_def)
  show ?case
  proof (cases j)
    case 0
    then show ?thesis by (simp add: e)
  next
    case (Suc i)
    with Cons.prems have "i < length vs" by simp
    from Cons.IH [OF this] Suc show ?thesis by (simp add: e)
  qed
qed

lemma codeOf_length: "md5_sized E \<Longrightarrow> length (codeOf E s) = 6"
  by (simp add: codeOf_def length_EncodeToString md5_sized_def)

lemma codeOf_nth:
  "md5_sized E \<Longrightarrow> i < 6 \<Longrightarrow>
   codeOf E s ! i = ValidChars ! (of_char (EncodeToString (md5Sum E s) ! i) mod 62)"
  by (simp add: codeOf_def length_EncodeToString md5_sized_def selectChar_def length_ValidChars)

lemma codeOf_hex: "set (codeOf E s) \<subseteq> set ''JKLMNOWXYZ012345''"
proof
  fix x assume "x \<in> set (codeOf E s)"
  then obtain h where "h \<in> set (EncodeToString (md5Sum E s))" and "x = selectChar h"
    by (auto simp: codeOf_def dest: in_set_takeD)
  with EncodeToString_chars selectChar_hex show "x \<in> set ''JKLMNOWXYZ012345''"
    by blast
qed

section \<open>Sequences of calls\<close>

lemma session_codes:
  "session rv E targets w = (results, w') \<Longrightarrow> \<forall>r \<in> set results. snd (fst r) = None \<Longrightarrow>
   distinct (map (\<lambda>r. fst (fst r)) results) \<and>
   set (map (\<lambda>r. fst (fst r)) results) \<inter> dom (urls (store w)) = {} \<and>
   map snd results = map (\<lambda>t. (t, None)) targets"
proof (induction targets arbitrary: w results w')
  case Nil
  then show ?case by simp
next
  case (Cons t ts)
  obtain gen w1 where g: "ShortenURL rv E t w = (gen, w1)"
    by (cases "ShortenURL rv E t w")
  obtain res w2 where r: "GetLongURL (fst gen) w1 = (res, w2)"
    by (cases "GetLongURL (fst gen) w1")
  obtain rs w3 where s: "session rv E ts w2 = (rs, w3)"
    by (cases "session rv E ts w2")
  from Cons.prems(1) g r s have results: "results = (gen, res) # rs" by simp
  with Cons.prems(2) have ok: "snd gen = None" and oks: "\<forall>r \<in> set rs. snd (fst r) = None"
    by simp_all
  from ok g have g': "ShortenURL rv E t w = ((fst gen, None), w1)"
    by (metis prod.collapse)
  note f = ShortenURL_fresh [OF g']
  from ShortenURL_then_GetLongURL [OF g'] r have res: "res = (t, None)" and w2: "w2 = w1"
    by simp_all
  from Cons.IH [OF s oks] have
    d: "distinct (map (\<lambda>r. fst (fst r)) rs)" and
    i: "set (map (\<lambda>r. fst (fst r)) rs) \<inter> dom (urls (store w2)) = {}" and
    m: "map snd rs = map (\<lambda>t. (t, None)) ts"
    by simp_all
  from f(2) w2 have dom: "dom (urls (store w2)) = insert (fst gen) (dom (urls (store w)))"
    by simp
  from i dom have "fst gen \<notin> set (map (\<lambda>r. fst (fst r)) rs)"
    and "set (map (\<lambda>r. fst (fst r)) rs) \<inter> dom (urls (store w)) = {}"
    by auto
  moreover from f(1) have "fst gen \<notin> dom (urls (store w))" by (simp add: domIff)
  ultimately show ?case using d m res by (simp add: results)
qed

section \<open>Two callers claiming one code\<close>

text \<open>
  \<open>Save\<close> does not check before it writes. When two callers have both seen \<open>Exists\<close>
  report a code absent and both save it, the second \<open>Save\<close> replaces the target of the
  first and the store holds one entry for the code.
\<close>

lemma Save_overwrites: "Save c t2 (Save c t1 s) = Save c t2 s"
  by (simp add: Save_def)

lemma double_claim_last_writer:
  "\<not> fst (Exists c s) \<Longrightarrow>
   \<not> fst (Exists c (snd (Exists c s))) \<and>
   fst (Get c (Save c t2 (Save c t1 s))) = (t2, True) \<and>
   dom (urls (Save c t2 (Save c t1 s))) = insert c (dom (urls s))"
  by (simp add: Exists_def Get_def Save_def)

section \<open>The sample runs\<close>

lemma sample_first:
  "ShortenURL Part002 sampleEnv ''https://example.com/a'' startWorld =
     ((''4NO5KL'', None), afterFirst)"
  by (subst ShortenURL_first [OF sampleEnv_sized sample_valid_A2, of _ "''4NO5KL''"])
     (simp_all add: sample_eval startWorld_def afterFirst_def NewStore_def)

lemma sample_second:
  "ShortenURL Part002 sampleEnv '' https://go.dev/doc '' afterFirst =
     ((''ZYW1X4'', None), afterSecond)"
  by (subst ShortenURL_first [OF sampleEnv_sized sample_valid_B2, of _ "''ZYW1X4''"])
     (simp_all add: sample_eval afterFirst_def afterSecond_def NewStore_def Save_def)

lemma sample_first_p1:
  "fst (ShortenURL Part001 sampleEnv ''https://example.com/a'' startWorld) = (''YW1ZNJ'', None)"
  by (subst ShortenURL_first [OF sampleEnv_sized sample_valid_A1, of _ "''YW1ZNJ''"])
     (simp_all add: sample_eval startWorld_def NewStore_def)

lemma sample_generate:
  "fst (generateShortCode Part002 sampleEnv ''https://example.com/a'' 0 startWorld) =
     Return ''4NO5KL''"
  by (subst generateShortCode_sized [OF sampleEnv_sized]) (simp add: sample_eval startWorld_def)

lemma sample_resolve_first: "GetLongURL ''4NO5KL'' afterFirst = ((''https://example.com/a'', None), afterFirst)"
  by (simp add: GetLongURL_eq trim_eval afterFirst_def Save_def NewStore_def)

lemma sample_resolve_second:
  "GetLongURL ''ZYW1X4'' afterSecond = (('' https://go.dev/doc '', None), afterSecond)"
  by (simp add: GetLongURL_eq trim_eval afterSecond_def Save_def NewStore_def)

lemma sample_session:
  "session Part002 sampleEnv [''https://example.com/a'', '' https://go.dev/doc ''] startWorld =
     ([((''4NO5KL'', None), (''https://example.com/a'', None)),
       ((''ZYW1X4'', None), ('' https://go.dev/doc '', None))], afterSecond)"
  by (simp add: sample_first sample_second sample_resolve_first sample_resolve_second)

section \<open>The sample run of two concurrent callers\<close>






section \<open>The properties of the specification\<close>

text \<open>
  C1. In a run of sequential \<open>ShortenURL\<close> calls, each followed at once by
  \<open>GetLongURL\<close> of the code it returned, if every \<open>ShortenURL\<close> succeeds then the
  returned codes are pairwise distinct and every \<open>GetLongURL\<close> returns exactly the
  target given to the matching \<open>ShortenURL\<close>, with no error.
\<close>

theorem sequential_codes_distinct_and_resolve:
  assumes "session rv E targets w = (results, w')"
    and "\<forall>r \<in> set results. snd (fst r) = None"
  shows "distinct (map (\<lambda>r. fst (fst r)) results) \<and>
         map snd results = map (\<lambda>t. (t, None)) targets"
  using session_codes [OF assms] by simp

theorem sequential_codes_witness:
  "session Part002 sampleEnv [''https://example.com/a'', '' https://go.dev/doc ''] startWorld =
     ([((''4NO5KL'', None), (''https://example.com/a'', None)),
       ((''ZYW1X4'', None), ('' https://go.dev/doc '', None))], afterSecond) \<and>
   distinct [''4NO5KL'', ''ZYW1X4'']"
proof -
  have "\<forall>r \<in> set [((''4NO5KL'', None), (''https://example.com/a'', None :: error option)),
                    ((''ZYW1X4'', None), ('' https://go.dev/doc '', None))].
          snd (fst r) = (None :: error option)"
    by simp
  from sequential_codes_distinct_and_resolve [OF sample_session this]
  have "distinct [''4NO5KL'', ''ZYW1X4'']" by simp
  with sample_session show ?thesis ..
qed

text \<open>
  C2 as stated: character \<open>i\<close> of a candidate is \<open>ValidChars[digestByte_i mod 62]\<close>.
  It fails: for the target \<open>https://example.com/a\<close>, clock reading
  1700000000000000000, random value 4242424242 and attempt 0, revision part_002
  hashes \<open>https://example.com/a-1700000000000000000-4242424242-0\<close>, whose MD5
  digest starts 8e f9 bc 7d 87 0b. The code is \<open>4NO5KL\<close>; indexing by the digest
  bytes would give \<open>sbcbll\<close>.
\<close>

theorem candidate_not_digest_bytes:
  "fst (generateShortCode Part002 sampleEnv ''https://example.com/a'' 0 startWorld) =
     Return ''4NO5KL'' \<and>
   specCandidate (md5Sum sampleEnv ''https://example.com/a-1700000000000000000-4242424242-0'') =
     ''sbcbll'' \<and>
   composite Part002 ''https://example.com/a'' (UnixNano sampleEnv (clock startWorld))
     (Int63 sampleEnv (rng startWorld)) 0 =
     ''https://example.com/a-1700000000000000000-4242424242-0'' \<and>
   fst (generateShortCode Part002 sampleEnv ''https://example.com/a'' 0 startWorld) \<noteq>
     Return (specCandidate (md5Sum sampleEnv
       (composite Part002 ''https://example.com/a'' (UnixNano sampleEnv (clock startWorld))
          (Int63 sampleEnv (rng startWorld)) 0)))"
proof -
  have s: "specCandidate (md5Sum sampleEnv
             ''https://example.com/a-1700000000000000000-4242424242-0'') = ''sbcbll''"
    by (simp add: specCandidate_def sampleEnv_def md5Table_def ShortCodeLength_def ValidChars_def)
  have c: "composite Part002 ''https://example.com/a'' (UnixNano sampleEnv (clock startWorld))
             (Int63 sampleEnv (rng startWorld)) 0 =
           ''https://example.com/a-1700000000000000000-4242424242-0''"
    by (simp add: composite_def sampleEnv_def startWorld_def itoa_def digits.simps)
  show ?thesis by (simp add: sample_generate s c)
qed

text \<open>
  C2, amended: the MD5 digest of the composite input is hex-encoded first, and
  character \<open>i\<close> of the candidate (\<open>i < 6\<close>) is \<open>ValidChars[h mod 62]\<close> for the byte \<open>h\<close>
  of the \<open>i\<close>-th hex character; hex characters \<open>2j\<close> and \<open>2j+1\<close> are the high and the
  low four bits of digest byte \<open>j\<close>, so the candidate is a function of the first three
  digest bytes.
\<close>

theorem candidate_from_hex_characters:
  assumes "md5_sized E"
  shows "fst (generateShortCode rv E longURL attempt w) =
           Return (codeOf E (composite rv longURL (UnixNano E (clock w)) (Int63 E (rng w)) attempt)) \<and>
         length (codeOf E s) = 6 \<and>
         (\<forall>i < 6. codeOf E s ! i =
            ValidChars ! (of_char (EncodeToString (md5Sum E s) ! i) mod 62)) \<and>
         (\<forall>j < 3. EncodeToString (md5Sum E s) ! (2 * j) =
                    hextable ! unat (drop_bit 4 (md5Sum E s ! j)) \<and>
                  EncodeToString (md5Sum E s) ! (2 * j + 1) =
                    hextable ! unat (md5Sum E s ! j AND 0x0f))"
proof -
  have "j < 3 \<Longrightarrow> j < length (md5Sum E s)" for j
    using assms by (simp add: md5_sized_def)
  then have nibbles:
    "\<forall>j < 3. EncodeToString (md5Sum E s) ! (2 * j) =
                hextable ! unat (drop_bit 4 (md5Sum E s ! j)) \<and>
              EncodeToString (md5Sum E s) ! (2 * j + 1) =
                hextable ! unat (md5Sum E s ! j AND 0x0f)"
    using EncodeToString_nth by blast
  have "fst (generateShortCode rv E longURL attempt w) =
          Return (codeOf E (composite rv longURL (UnixNano E (clock w)) (Int63 E (rng w)) attempt))"
    by (simp add: generateShortCode_sized [OF assms] codeOf_def)
  moreover from assms have "length (codeOf E s) = 6" by (rule codeOf_length)
  moreover from assms have
    "\<forall>i < 6. codeOf E s ! i = ValidChars ! (of_char (EncodeToString (md5Sum E s) ! i) mod 62)"
    by (simp add: codeOf_nth)
  ultimately show ?thesis using nibbles by blast
qed

theorem candidate_from_hex_characters_witness:
  "md5_sized sampleEnv \<and>
   fst (generateShortCode Part002 sampleEnv ''https://example.com/a'' 0 startWorld) =
     Return ''4NO5KL'' \<and>
   EncodeToString (md5Sum sampleEnv ''https://example.com/a-1700000000000000000-4242424242-0'') =
     ''8ef9bc7d870b990783808148a9f23ca6'' \<and>
   codeOf sampleEnv ''https://example.com/a-1700000000000000000-4242424242-0'' = ''4NO5KL''"
proof -
  have hex: "EncodeToString (md5Sum sampleEnv
               ''https://example.com/a-1700000000000000000-4242424242-0'') =
             ''8ef9bc7d870b990783808148a9f23ca6''"
    by (simp add: sampleEnv_def md5Table_def EncodeToString_def hextable_def)
  have comp: "composite Part002 ''https://example.com/a'' (UnixNano sampleEnv (clock startWorld))
                (Int63 sampleEnv (rng startWorld)) 0 =
              ''https://example.com/a-1700000000000000000-4242424242-0''"
    by (simp add: composite_def sampleEnv_def startWorld_def itoa_def digits.simps)
  from candidate_from_hex_characters [OF sampleEnv_sized, of Part002 "''https://example.com/a''"
      0 startWorld "''https://example.com/a-1700000000000000000-4242424242-0''"]
  have "Return (codeOf sampleEnv ''https://example.com/a-1700000000000000000-4242424242-0'') =
          fst (generateShortCode Part002 sampleEnv ''https://example.com/a'' 0 startWorld)"
    by (simp only: comp)
  then have "codeOf sampleEnv ''https://example.com/a-1700000000000000000-4242424242-0'' =
               ''4NO5KL''"
    by (simp only: sample_generate exec.inject)
  with sampleEnv_sized sample_generate hex show ?thesis by (intro conjI)
qed

text \<open>
  C3. If validation accepts the target and each of the ten attempts produces a
  candidate that is already a key of the store, \<open>ShortenURL\<close> returns the empty code
  with \<open>ErrMaxRetries\<close> (as \<open>generateUniqueShortCode\<close> does), and the store it leaves is
  the store it found: no entry is added and \<open>Count\<close> is unchanged.
\<close>

theorem exhausted_retries_leave_store:
  assumes "validateURL rv E longURL = Return None"
    and "\<forall>k < 10. collides rv E longURL w k"
  shows "fst (ShortenURL rv E longURL w) = ([], Some ErrMaxRetries) \<and>
         fst (generateUniqueShortCode rv E longURL w) = Return ([], Some ErrMaxRetries) \<and>
         store (snd (ShortenURL rv E longURL w)) = store w \<and>
         fst (Count (store (snd (ShortenURL rv E longURL w)))) = fst (Count (store w)) \<and>
         MaxRetries = 10"
proof -
  from assms(2) have "firstFree rv E longURL w = None" by (simp add: firstFree_None)
  with assms(1) show ?thesis
    by (simp add: ShortenURL_eq generateUniqueShortCode_eq attemptWorld_store MaxRetries_def
        del: attemptWorld.simps)
qed

theorem exhausted_retries_witness:
  "validateURL Part002 sampleEnv ''https://example.com/a'' = Return None \<and>
   list_all (collides Part002 sampleEnv ''https://example.com/a'' (busyWorld 10)) [0..<10] \<and>
   fst (ShortenURL Part002 sampleEnv ''https://example.com/a'' (busyWorld 10)) =
     ([], Some ErrMaxRetries) \<and>
   store (snd (ShortenURL Part002 sampleEnv ''https://example.com/a'' (busyWorld 10))) =
     busyStore 10 \<and>
   fst (Count (busyStore 10)) = 10"
proof -
  have all: "\<forall>k < 10. collides Part002 sampleEnv ''https://example.com/a'' (busyWorld 10) k"
    by (simp add: sample_collides_10)
  then have l: "list_all (collides Part002 sampleEnv ''https://example.com/a'' (busyWorld 10))
                  [0..<10]"
    by (simp add: list_all_iff)
  have s: "store (busyWorld 10) = busyStore 10" by (simp add: busyWorld_def)
  have c: "fst (Count (busyStore 10)) = 10"
    by (simp add: Count_def busyStore_def)
  from exhausted_retries_leave_store [OF sample_valid_A2 all] sample_valid_A2 l s c
  show ?thesis by simp
qed

text \<open>
  C4. A code returned by a successful \<open>ShortenURL\<close> has exactly \<open>ShortCodeLength\<close> = 6
  characters, each a symbol of \<open>ValidChars\<close>; \<open>ValidChars\<close> has 62 distinct symbols, all
  of them lowercase letters, uppercase letters or digits.
\<close>

theorem returned_code_shape:
  assumes "ShortenURL rv E longURL w = ((c, None), w')"
  shows "int (length c) = ShortCodeLength \<and> length c = 6 \<and> set c \<subseteq> set ValidChars \<and>
         list_all alnum c \<and>
         length ValidChars = 62 \<and> distinct ValidChars \<and> list_all alnum ValidChars"
proof -
  note f = ShortenURL_fresh [OF assms]
  from f(4) ValidChars_alnum have "list_all alnum c"
    by (auto simp: list_all_iff)
  with f(3,4) show ?thesis
    by (simp add: ShortCodeLength_def length_ValidChars distinct_ValidChars ValidChars_alnum)
qed

theorem returned_code_shape_witness:
  "fst (ShortenURL Part001 sampleEnv ''https://example.com/a'' startWorld) = (''YW1ZNJ'', None) \<and>
   length ''YW1ZNJ'' = 6 \<and> set ''YW1ZNJ'' \<subseteq> set ValidChars \<and> list_all alnum ''YW1ZNJ''"
proof -
  have "ShortenURL Part001 sampleEnv ''https://example.com/a'' startWorld =
          ((''YW1ZNJ'', None), snd (ShortenURL Part001 sampleEnv ''https://example.com/a'' startWorld))"
    using sample_first_p1 by (metis prod.collapse)
  from returned_code_shape [OF this] sample_first_p1 show ?thesis by simp
qed

text \<open>
  C5. The loop counts attempts 0 to 9. Attempts 0..2 take their candidate from
  \<open>generateShortCode(longURL, attempt)\<close>, attempts 3..6 from
  \<open>generateShortCode(longURL, attempt*2)\<close>, attempts 7..9 from
  \<open>generateShortCode(longURL + "_" + now, attempt)\<close> with a fresh clock reading. The
  loop returns the candidate of the first attempt whose \<open>Exists\<close> check fails, and
  \<open>ErrMaxRetries\<close> when there is none among the ten (or it panics where that
  attempt's generator panics). With 16-byte digests, attempt \<open>k\<close> hashes
  \<open>hashedAt\<close> at the clock and random positions \<open>readsBefore k\<close> and \<open>k\<close> after the start.
\<close>

theorem retry_loop_first_absent:
  "candidate rv E longURL attempt w =
     (if attempt < 3 then generateShortCode rv E longURL attempt w
      else if attempt < 7 then generateShortCode rv E longURL (attempt * 2) w
      else generateShortCode rv E (longURL @ ''_'' @ itoa (UnixNano E (clock w))) attempt
             (w\<lparr>clock := Suc (clock w)\<rparr>)) \<and>
   generateUniqueShortCode rv E longURL w =
     (case firstFree rv E longURL w of
        None \<Rightarrow> (Return ([], Some ErrMaxRetries), attemptWorld rv E longURL w 10)
      | Some k \<Rightarrow>
          (case attemptCode rv E longURL w k of
             Return c \<Rightarrow> (Return (c, None), attemptWorld rv E longURL w (Suc k))
           | Panic \<Rightarrow> (Panic, attemptWorld rv E longURL w (Suc k)))) \<and>
   (\<forall>k. firstFree rv E longURL w = Some k \<longrightarrow>
      k < 10 \<and> \<not> collides rv E longURL w k \<and> (\<forall>j < k. collides rv E longURL w j)) \<and>
   (firstFree rv E longURL w = None \<longleftrightarrow> (\<forall>k < 10. collides rv E longURL w k)) \<and>
   (md5_sized E \<longrightarrow>
      attemptCode rv E longURL w n =
        Return (codeOf E (hashedAt rv E longURL (int n)
          (w\<lparr>clock := clock w + readsBefore n, rng := rng w + n\<rparr>))))"
  using candidate_tiers [of rv E longURL attempt w] generateUniqueShortCode_eq [of rv E longURL w]
    firstFree_Some [of rv E longURL w] firstFree_None [of rv E longURL w]
    attemptCode_sized [of E rv longURL w n]
  by blast

theorem retry_loop_first_absent_witness:
  "firstFree Part002 sampleEnv ''https://example.com/a'' (busyWorld 8) = Some 8 \<and>
   generateUniqueShortCode Part002 sampleEnv ''https://example.com/a'' (busyWorld 8) =
     (Return (''KYWWOW'', None), \<lparr>store = busyStore 8, clock = 11, rng = 9\<rparr>) \<and>
   hashedAt Part002 sampleEnv ''https://example.com/a'' 8
     \<lparr>store = busyStore 8, clock = 9, rng = 8\<rparr> =
     ''https://example.com/a_1700000000000009000-1700000000000010000-4242424298-8''"
proof -
  have ff: "firstFree Part002 sampleEnv ''https://example.com/a'' (busyWorld 8) = Some 8"
    by (rule firstFreeI) (simp_all add: sample_free_8 sample_collides_8)
  have code: "attemptCode Part002 sampleEnv ''https://example.com/a'' (busyWorld 8) 8 =
                Return ''KYWWOW''"
    by (simp add: sample_attempts busyWorld_def)
  have world: "attemptWorld Part002 sampleEnv ''https://example.com/a'' (busyWorld 8) (Suc 8) =
                 \<lparr>store = busyStore 8, clock = 11, rng = 9\<rparr>"
    by (subst attemptWorld_sized [OF sampleEnv_sized]) (simp add: busyWorld_def readsBefore_def)
  have hashed: "hashedAt Part002 sampleEnv ''https://example.com/a'' 8
                  \<lparr>store = busyStore 8, clock = 9, rng = 8\<rparr> =
                ''https://example.com/a_1700000000000009000-1700000000000010000-4242424298-8''"
    by (simp add: sample_eval)
  from retry_loop_first_absent [of Part002 sampleEnv "''https://example.com/a''" 8
      "busyWorld 8" 8]
  have "generateUniqueShortCode Part002 sampleEnv ''https://example.com/a'' (busyWorld 8) =
          (Return (''KYWWOW'', None), \<lparr>store = busyStore 8, clock = 11, rng = 9\<rparr>)"
    by (simp only: ff code world option.case exec.case)
  with ff hashed show ?thesis by (intro conjI)
qed

text \<open>
  C6. \<open>GetLongURL\<close> trims the code with \<open>strings.TrimSpace\<close> (the result has no
  white-space rune at either end and is a contiguous part of the input). If the
  trimmed code is empty, as for \<open>""\<close> and \<open>"   "\<close>, it returns \<open>ErrEmptyURL\<close>, which is
  not \<open>ErrURLNotFound\<close>. Otherwise it looks the trimmed code up in the store and
  returns \<open>ErrURLNotFound\<close> exactly when the store has no entry for it, and the stored
  target otherwise. The world is left as it was.
\<close>

theorem resolve_trims_then_looks_up:
  "GetLongURL shortCode w =
     (if TrimSpace shortCode = [] then (([], Some ErrEmptyURL), w)
      else (case urls (store w) (TrimSpace shortCode) of
              None \<Rightarrow> (([], Some ErrURLNotFound), w)
            | Some longURL \<Rightarrow> ((longURL, None), w))) \<and>
   (TrimSpace shortCode \<noteq> [] \<longrightarrow>
      (snd (fst (GetLongURL shortCode w)) = Some ErrURLNotFound \<longleftrightarrow>
       urls (store w) (TrimSpace shortCode) = None)) \<and>
   leadingSpace (TrimSpace shortCode) = 0 \<and> trailingSpace (TrimSpace shortCode) = 0 \<and>
   sublist (TrimSpace shortCode) shortCode \<and>
   GetLongURL [] w = (([], Some ErrEmptyURL), w) \<and>
   GetLongURL ''   '' w = (([], Some ErrEmptyURL), w) \<and>
   ErrEmptyURL \<noteq> ErrURLNotFound"
proof -
  have "TrimSpace shortCode \<noteq> [] \<longrightarrow>
      (snd (fst (GetLongURL shortCode w)) = Some ErrURLNotFound \<longleftrightarrow>
       urls (store w) (TrimSpace shortCode) = None)"
    by (simp add: GetLongURL_eq split: option.splits)
  moreover have "GetLongURL [] w = (([], Some ErrEmptyURL), w)"
    by (simp add: GetLongURL_eq TrimSpace_empty)
  moreover have "GetLongURL ''   '' w = (([], Some ErrEmptyURL), w)"
    by (simp add: GetLongURL_eq TrimSpace_blanks)
  ultimately show ?thesis
    using GetLongURL_eq [of shortCode w] TrimSpace_trimmed [of shortCode]
      TrimSpace_sublist [of shortCode]
    by simp
qed

theorem resolve_trims_then_looks_up_witness:
  "TrimSpace ''  4NO5KL '' = ''4NO5KL'' \<and>
   GetLongURL ''  4NO5KL '' afterFirst = ((''https://example.com/a'', None), afterFirst) \<and>
   TrimSpace '' J1XYOJ'' = ''J1XYOJ'' \<and>
   GetLongURL '' J1XYOJ'' afterFirst = (([], Some ErrURLNotFound), afterFirst)"
proof -
  have t1: "TrimSpace ''  4NO5KL '' = ''4NO5KL''" by (simp add: trim_eval)
  have t2: "TrimSpace '' J1XYOJ'' = ''J1XYOJ''" by (simp add: trim_eval)
  have s1: "urls (store afterFirst) ''4NO5KL'' = Some ''https://example.com/a''"
    by (simp add: afterFirst_def Save_def NewStore_def)
  have s2: "urls (store afterFirst) ''J1XYOJ'' = None"
    by (simp add: afterFirst_def Save_def NewStore_def)
  from resolve_trims_then_looks_up [of "''  4NO5KL ''" afterFirst]
  have g1: "GetLongURL ''  4NO5KL '' afterFirst = ((''https://example.com/a'', None), afterFirst)"
    by (simp add: t1 s1)
  from resolve_trims_then_looks_up [of "'' J1XYOJ''" afterFirst]
  have g2: "GetLongURL '' J1XYOJ'' afterFirst = (([], Some ErrURLNotFound), afterFirst)"
    by (simp add: t2 s2)
  from t1 g1 t2 g2 show ?thesis by (intro conjI)
qed

text \<open>
  C7. \<open>Get\<close> returns the empty string with \<open>found = false\<close> exactly when the store has no
  entry for the code, and the stored target with \<open>found = true\<close> otherwise; \<open>Exists\<close>
  returns the \<open>found\<close> flag of \<open>Get\<close>; \<open>Get\<close>, \<open>Exists\<close> and \<open>Count\<close> return the store
  they were given.
\<close>

theorem store_reads:
  "(fst (Get shortCode s) = ([], False) \<longleftrightarrow> urls s shortCode = None) \<and>
   (urls s shortCode = Some longURL \<longrightarrow> fst (Get shortCode s) = (longURL, True)) \<and>
   fst (Exists shortCode s) = snd (fst (Get shortCode s)) \<and>
   snd (Get shortCode s) = s \<and> snd (Exists shortCode s) = s \<and> snd (Count s) = s \<and>
   fst (Count s) = card (dom (urls s))"
  by (simp add: Get_def Exists_def Count_def split: option.splits)

theorem store_reads_witness:
  "fst (Get ''J1XYOJ'' (store afterFirst)) = ([], False) \<and>
   fst (Get ''4NO5KL'' (store afterFirst)) = (''https://example.com/a'', True) \<and>
   fst (Exists ''J1XYOJ'' (store afterFirst)) = False \<and>
   fst (Exists ''4NO5KL'' (store afterFirst)) = True \<and>
   snd (Get ''4NO5KL'' (store afterFirst)) = store afterFirst \<and>
   snd (Exists ''4NO5KL'' (store afterFirst)) = store afterFirst \<and>
   snd (Count (store afterFirst)) = store afterFirst \<and>
   fst (Count (store afterFirst)) = 1"
proof -
  have a: "urls (store afterFirst) ''J1XYOJ'' = None"
    by (simp add: afterFirst_def Save_def NewStore_def)
  have b: "urls (store afterFirst) ''4NO5KL'' = Some ''https://example.com/a''"
    by (simp add: afterFirst_def Save_def NewStore_def)
  have c: "card (dom (urls (store afterFirst))) = 1"
    by (simp add: afterFirst_def Save_def NewStore_def)
  note absent = store_reads [of "''J1XYOJ''" "store afterFirst" "[]"]
  note present = store_reads [of "''4NO5KL''" "store afterFirst" "''https://example.com/a''"]
  from absent a have 1: "fst (Get ''J1XYOJ'' (store afterFirst)) = ([], False)" by blast
  from present b have 2: "fst (Get ''4NO5KL'' (store afterFirst)) = (''https://example.com/a'', True)"
    by blast
  from absent 1 have 3: "fst (Exists ''J1XYOJ'' (store afterFirst)) = False" by simp
  from present 2 have 4: "fst (Exists ''4NO5KL'' (store afterFirst)) = True" by simp
  from present have 5: "snd (Get ''4NO5KL'' (store afterFirst)) = store afterFirst"
    and 6: "snd (Exists ''4NO5KL'' (store afterFirst)) = store afterFirst"
    and 7: "snd (Count (store afterFirst)) = store afterFirst"
    and "fst (Count (store afterFirst)) = card (dom (urls (store afterFirst)))"
    by blast+
  with c have 8: "fst (Count (store afterFirst)) = 1" by simp
  from 1 2 3 4 5 6 7 8 show ?thesis by (intro conjI)
qed

text \<open>
  C9. When \<open>ShortenURL\<close> succeeds, the store it leaves maps the returned code to the
  very string it was given (no trimming, decoding or other change, although
  \<open>validateURL\<close> of part_002 examines a trimmed copy), every other entry is as before,
  and \<open>GetLongURL\<close> of the code returns that string. The target is checked once, by
  \<open>validateURL\<close> on entry, and never again: \<open>ShortenURL\<close> returns the validator's
  error when it rejects, leaving the world untouched, and when it accepts the outcome
  is that of the retry loop alone: the candidate of the first attempt that does not
  collide is returned and saved, \<open>ErrMaxRetries\<close> is returned when all ten collide,
  and the critical error when that attempt's generator panics. With 16-byte digests
  no generator panics, so an accepted target whose first candidate is free always
  succeeds, with that candidate.
\<close>

theorem target_stored_verbatim:
  "(ShortenURL rv E longURL w = ((c, None), w') \<longrightarrow>
      validateURL rv E longURL = Return None \<and>
      urls (store w') = (urls (store w))(c \<mapsto> longURL) \<and>
      urls (store w') c = Some longURL \<and>
      fst (GetLongURL c w') = (longURL, None)) \<and>
   (validateURL rv E longURL = Return None \<longrightarrow>
      snd (fst (ShortenURL rv E longURL w)) \<in> {None, Some ErrMaxRetries, Some ErrCritical}) \<and>
   ShortenURL rv E longURL w =
     (case validateURL rv E longURL of
        Panic \<Rightarrow> (([], Some ErrCritical), w)
      | Return (Some err) \<Rightarrow> (([], Some err), w)
      | Return None \<Rightarrow>
          (case firstFree rv E longURL w of
             None \<Rightarrow> (([], Some ErrMaxRetries), attemptWorld rv E longURL w 10)
           | Some k \<Rightarrow>
               (case attemptCode rv E longURL w k of
                  Panic \<Rightarrow> (([], Some ErrCritical), attemptWorld rv E longURL w (Suc k))
                | Return code \<Rightarrow>
                    ((code, None),
                     (attemptWorld rv E longURL w (Suc k))
                       \<lparr>store := Save code longURL (store w)\<rparr>)))) \<and>
   (md5_sized E \<and> validateURL rv E longURL = Return None \<and>
    urls (store w) (codeOf E (hashedAt rv E longURL 0 w)) = None \<longrightarrow>
      ShortenURL rv E longURL w =
        ((codeOf E (hashedAt rv E longURL 0 w), None),
         w\<lparr>clock := Suc (clock w), rng := Suc (rng w),
           store := Save (codeOf E (hashedAt rv E longURL 0 w)) longURL (store w)\<rparr>)) \<and>
   (md5_sized E \<and> validateURL rv E longURL = Return None \<and> j < 10 \<and>
    \<not> collides rv E longURL w j \<longrightarrow>
      snd (fst (ShortenURL rv E longURL w)) = None)"
proof -
  have "validateURL rv E longURL = Return None \<and>
        urls (store w') = (urls (store w))(c \<mapsto> longURL) \<and>
        urls (store w') c = Some longURL \<and>
        fst (GetLongURL c w') = (longURL, None)"
    if ok: "ShortenURL rv E longURL w = ((c, None), w')"
    using ShortenURL_success(1) [OF ok] ShortenURL_fresh(2) [OF ok]
      ShortenURL_then_GetLongURL [OF ok]
    by simp
  moreover have
    "snd (fst (ShortenURL rv E longURL w)) \<in> {None, Some ErrMaxRetries, Some ErrCritical}"
    if "validateURL rv E longURL = Return None"
    using that
    by (simp add: ShortenURL_eq del: attemptWorld.simps split: option.splits exec.splits)
  moreover note ShortenURL_eq [of rv E longURL w]
  moreover have
    "ShortenURL rv E longURL w =
        ((codeOf E (hashedAt rv E longURL 0 w), None),
         w\<lparr>clock := Suc (clock w), rng := Suc (rng w),
           store := Save (codeOf E (hashedAt rv E longURL 0 w)) longURL (store w)\<rparr>)"
    if "md5_sized E" and "validateURL rv E longURL = Return None"
      and "urls (store w) (codeOf E (hashedAt rv E longURL 0 w)) = None"
    using that by (intro ShortenURL_first) simp_all
  moreover have "snd (fst (ShortenURL rv E longURL w)) = None"
    if sized: "md5_sized E" and ok: "validateURL rv E longURL = Return None"
      and j: "j < 10" and free: "\<not> collides rv E longURL w j"
  proof -
    from j free have "firstFree rv E longURL w \<noteq> None"
      by (auto simp: firstFree_None)
    then obtain k where k: "firstFree rv E longURL w = Some k" by auto
    from attemptCode_sized [OF sized, of rv longURL w k]
    obtain code where "attemptCode rv E longURL w k = Return code" by blast
    with k ok show ?thesis
      by (simp add: ShortenURL_eq del: attemptWorld.simps)
  qed
  ultimately show ?thesis by blast
qed

theorem target_stored_verbatim_witness:
  "ShortenURL Part002 sampleEnv '' https://go.dev/doc '' afterFirst =
     ((''ZYW1X4'', None), afterSecond) \<and>
   TrimSpace '' https://go.dev/doc '' = ''https://go.dev/doc'' \<and>
   urls (store afterSecond) ''ZYW1X4'' = Some '' https://go.dev/doc '' \<and>
   fst (GetLongURL ''ZYW1X4'' afterSecond) = ('' https://go.dev/doc '', None) \<and>
   md5_sized sampleEnv \<and>
   validateURL Part002 sampleEnv '' https://go.dev/doc '' = Return None \<and>
   codeOf sampleEnv (hashedAt Part002 sampleEnv '' https://go.dev/doc '' 0 afterFirst) =
     ''ZYW1X4'' \<and>
   urls (store afterFirst) ''ZYW1X4'' = None \<and>
   ShortenURL Part002 sampleEnv [] afterFirst =
     (([], Some (ValidationError ''long_url'' [] MsgEmpty)), afterFirst)"
proof -
  have t: "TrimSpace '' https://go.dev/doc '' = ''https://go.dev/doc''"
    by (simp add: trim_eval)
  have code: "codeOf sampleEnv (hashedAt Part002 sampleEnv '' https://go.dev/doc '' 0 afterFirst) =
                ''ZYW1X4''"
    by (simp add: sample_eval afterFirst_def)
  have free: "urls (store afterFirst) ''ZYW1X4'' = None"
    by (simp add: afterFirst_def Save_def NewStore_def)
  have rejected: "validateURL Part002 sampleEnv [] = Return (Some (ValidationError ''long_url'' [] MsgEmpty))"
    by (simp add: validateURL_def validateURL_p2_def)
  note main = target_stored_verbatim [of Part002 sampleEnv "'' https://go.dev/doc ''" afterFirst
      "''ZYW1X4''" afterSecond 0]
  from main sample_second
  have u: "urls (store afterSecond) ''ZYW1X4'' = Some '' https://go.dev/doc ''"
    and g: "fst (GetLongURL ''ZYW1X4'' afterSecond) = ('' https://go.dev/doc '', None)"
    by blast+
  from target_stored_verbatim [of Part002 sampleEnv "[]" afterFirst "[]" afterFirst 0]
  have "ShortenURL Part002 sampleEnv [] afterFirst =
          (case validateURL Part002 sampleEnv [] of
             Panic \<Rightarrow> (([], Some ErrCritical), afterFirst)
           | Return (Some err) \<Rightarrow> (([], Some err), afterFirst)
           | Return None \<Rightarrow>
               (case firstFree Part002 sampleEnv [] afterFirst of
                  None \<Rightarrow> (([], Some ErrMaxRetries), attemptWorld Part002 sampleEnv [] afterFirst 10)
                | Some k \<Rightarrow>
                    (case attemptCode Part002 sampleEnv [] afterFirst k of
                       Panic \<Rightarrow>
                         (([], Some ErrCritical), attemptWorld Part002 sampleEnv [] afterFirst (Suc k))
                     | Return code \<Rightarrow>
                         ((code, None),
                          (attemptWorld Part002 sampleEnv [] afterFirst (Suc k))
                            \<lparr>store := Save code [] (store afterFirst)\<rparr>))))"
    by blast
  then have r: "ShortenURL Part002 sampleEnv [] afterFirst =
                  (([], Some (ValidationError ''long_url'' [] MsgEmpty)), afterFirst)"
    by (simp add: rejected del: attemptWorld.simps)
  from sample_second t u g sampleEnv_sized sample_valid_B2 code free r
  show ?thesis by (intro conjI)
qed

text \<open>
  C10. With 16-byte digests, every candidate code (of \<open>generateShortCode\<close>, and so of
  every attempt of the retry loop) consists of characters of \<open>JKLMNOWXYZ012345\<close>,
  sixteen of the 62 symbols: the characters of a hex string are \<open>0\<close>..\<open>9\<close> and
  \<open>a\<close>..\<open>f\<close>, bytes 48..57 and 97..102, and \<open>ValidChars\<close> at these values mod 62 is
  \<open>W\<close>..\<open>Z\<close>, \<open>0\<close>..\<open>5\<close> and \<open>J\<close>..\<open>O\<close>.
\<close>

theorem candidates_use_sixteen_symbols:
  assumes "md5_sized E"
  shows "(\<exists>c. fst (generateShortCode rv E longURL attempt w) = Return c \<and>
              set c \<subseteq> set ''JKLMNOWXYZ012345'') \<and>
         (\<exists>c. fst (candidate rv E longURL attempt w) = Return c \<and>
              set c \<subseteq> set ''JKLMNOWXYZ012345'') \<and>
         set (EncodeToString digest) \<subseteq> set ''0123456789abcdef'' \<and>
         map (\<lambda>h. of_char h :: nat) ''0123456789abcdef'' =
           [48, 49, 50, 51, 52, 53, 54, 55, 56, 57, 97, 98, 99, 100, 101, 102] \<and>
         map selectChar ''0123456789abcdef'' = ''WXYZ012345JKLMNO'' \<and>
         set ''JKLMNOWXYZ012345'' \<subseteq> set ValidChars \<and>
         card (set ''JKLMNOWXYZ012345'') = 16"
proof -
  have "fst (generateShortCode rv E longURL attempt w) =
          Return (codeOf E (composite rv longURL (UnixNano E (clock w)) (Int63 E (rng w)) attempt))"
    by (simp add: generateShortCode_sized [OF assms] codeOf_def)
  then have g: "\<exists>c. fst (generateShortCode rv E longURL attempt w) = Return c \<and>
                   set c \<subseteq> set ''JKLMNOWXYZ012345''"
    using codeOf_hex by blast
  have "fst (candidate rv E longURL attempt w) =
          Return (codeOf E (hashedAt rv E longURL attempt w))"
    by (simp add: candidate_sized [OF assms])
  then have c: "\<exists>c. fst (candidate rv E longURL attempt w) = Return c \<and>
                   set c \<subseteq> set ''JKLMNOWXYZ012345''"
    using codeOf_hex by blast
  have h: "set (EncodeToString digest) \<subseteq> set ''0123456789abcdef''"
    using EncodeToString_chars [of digest] by (simp add: hextable_def)
  have v: "map (\<lambda>h. of_char h :: nat) ''0123456789abcdef'' =
             [48, 49, 50, 51, 52, 53, 54, 55, 56, 57, 97, 98, 99, 100, 101, 102]"
    by simp
  have m: "map selectChar ''0123456789abcdef'' = ''WXYZ012345JKLMNO''"
    by (simp add: selectChar_def ValidChars_def)
  have s: "set ''JKLMNOWXYZ012345'' \<subseteq> set ValidChars"
    by (simp add: ValidChars_def)
  have n: "card (set ''JKLMNOWXYZ012345'') = 16"
    by (simp add: card_insert_if)
  from g c h v m s n show ?thesis by (intro conjI)
qed

theorem candidates_use_sixteen_symbols_witness:
  "md5_sized sampleEnv \<and>
   fst (generateShortCode Part002 sampleEnv ''https://example.com/a'' 0 startWorld) =
     Return ''4NO5KL'' \<and>
   set ''4NO5KL'' \<subseteq> set ''JKLMNOWXYZ012345''"
proof -
  from candidates_use_sixteen_symbols [OF sampleEnv_sized, of Part002 "''https://example.com/a''"
      0 startWorld]
  obtain c where "fst (generateShortCode Part002 sampleEnv ''https://example.com/a'' 0 startWorld)
                    = Return c" and "set c \<subseteq> set ''JKLMNOWXYZ012345''"
    by blast
  with sample_generate have "set ''4NO5KL'' \<subseteq> set ''JKLMNOWXYZ012345''" by simp
  with sampleEnv_sized sample_generate show ?thesis by (intro conjI)
qed



end
